theory Spec2Isabelle
  imports Complex_Main "HOL-Library.AList"
begin

section \<open>JavaScript values\<close>

text \<open>
  The vault (\<^verbatim>\<open>VaultProvider\<close>) stores plain JavaScript data: each card is an object
  literal, and the code reads and writes it with property access, \<^verbatim>\<open>||\<close>, object spread,
  \<^verbatim>\<open>JSON.stringify\<close> and \<^verbatim>\<open>JSON.parse\<close>. The values are modelled as a datatype.

  \<^item> A number is \<open>NaN\<close>, an infinity, or a finite number, given by its exact value, a
    rational. The arithmetic of the statistics rounds to IEEE doubles (\<open>round_double\<close>
    below). The sign of zero is not modelled: no code below tells \<^verbatim>\<open>-0\<close> from \<^verbatim>\<open>0\<close>.
  \<^item> A string is the list of its code units; the model covers code units below 256.
  \<^item> An object is the list of its own properties in the order in which they were
    defined (JavaScript lists integer-like keys first; no definition below depends on
    that). The keys of an object are distinct. The two histograms of the statistics are
    maps from keys to counts, without an order.
  \<^item> Values are data: there are no functions, symbols or object identities.
\<close>

datatype jsnum = NaN | PosInf | NegInf | Fin rat

datatype jsval = Undefined | Null | Boolean bool | Number jsnum | Str string
  | Arr "jsval list" | Obj "(string \<times> jsval) list"

text \<open>
  What the code throws: \<^verbatim>\<open>SyntaxError\<close> (from \<^verbatim>\<open>JSON.parse\<close>), \<^verbatim>\<open>TypeError\<close> (a property of
  \<^verbatim>\<open>null\<close> or \<^verbatim>\<open>undefined\<close>, a call of something that is not a function),
  \<^verbatim>\<open>new Error(message)\<close>, and the rejection of an \<^verbatim>\<open>AsyncStorage\<close> call.
\<close>

datatype js_error = SyntaxError | TypeError | Error string | StorageError

fun truthy :: "jsval \<Rightarrow> bool" where
  "truthy Undefined = False"
| "truthy Null = False"
| "truthy (Boolean b) = b"
| "truthy (Number n) = (n \<noteq> NaN \<and> n \<noteq> Fin 0)"
| "truthy (Str s) = (s \<noteq> [])"
| "truthy (Arr xs) = True"
| "truthy (Obj kvs) = True"

text \<open>\<^verbatim>\<open>a || b\<close>\<close>

definition js_or :: "jsval \<Rightarrow> jsval \<Rightarrow> jsval" where
  "js_or a b = (if truthy a then a else b)"

fun nullish :: "jsval \<Rightarrow> bool" where
  "nullish Undefined = True"
| "nullish Null = True"
| "nullish v = False"

text \<open>
  \<^verbatim>\<open>v.k\<close> for a value that is neither \<^verbatim>\<open>null\<close> nor \<^verbatim>\<open>undefined\<close>. The code reads only
  the property names \<^verbatim>\<open>id\<close>, \<^verbatim>\<open>name\<close>, \<^verbatim>\<open>set\<close>, \<^verbatim>\<open>setNumber\<close>, \<^verbatim>\<open>overallGrade\<close>, \<^verbatim>\<open>subgrades\<close>,
  \<^verbatim>\<open>marketValue\<close>, \<^verbatim>\<open>photoUri\<close>, \<^verbatim>\<open>scannedAt\<close>, \<^verbatim>\<open>confidence\<close>, \<^verbatim>\<open>notes\<close>, \<^verbatim>\<open>tags\<close> and \<^verbatim>\<open>cards\<close>;
  none of them is a property of a string, number, boolean or array, or inherited by an
  object.
\<close>

fun field :: "jsval \<Rightarrow> string \<Rightarrow> jsval" where
  "field (Obj kvs) k = (case map_of kvs k of Some v \<Rightarrow> v | None \<Rightarrow> Undefined)"
| "field v k = Undefined"

text \<open>\<^verbatim>\<open>v.k\<close> in general: a \<^verbatim>\<open>TypeError\<close> on \<^verbatim>\<open>null\<close> and \<^verbatim>\<open>undefined\<close>.\<close>

definition get_prop :: "jsval \<Rightarrow> string \<Rightarrow> js_error + jsval" where
  "get_prop v k = (if nullish v then Inl TypeError else Inr (field v k))"

text \<open>\<^verbatim>\<open>n.toString()\<close> for a natural number below \<open>10\<^sup>2\<^sup>1\<close>: its decimal digits.\<close>

definition digit_char :: "nat \<Rightarrow> char" where
  "digit_char d = ''0123456789'' ! d"

fun decimal :: "nat \<Rightarrow> string" where
  "decimal n =
     (if n < 10 then [digit_char n] else decimal (n div 10) @ [digit_char (n mod 10)])"

declare decimal.simps [simp del]

text \<open>
  \<^verbatim>\<open>ToString\<close>, which \<^verbatim>\<open>parseFloat\<close> applies to its argument, a property access to its
  key and a template literal to each \<^verbatim>\<open>${...}\<close>. Printing a number is the platform's: \<open>nts\<close> stands for it, and is a parameter. An
  array prints its elements joined by commas, \<^verbatim>\<open>null\<close> and \<^verbatim>\<open>undefined\<close> as nothing. An
  object prints as \<^verbatim>\<open>[object Object]\<close>, unless it has a property \<^verbatim>\<open>toString\<close> of its own:
  its value is data and cannot be called, \<^verbatim>\<open>valueOf\<close> returns no primitive, and the
  conversion throws a \<^verbatim>\<open>TypeError\<close>.
\<close>

fun ToString :: "(jsnum \<Rightarrow> string) \<Rightarrow> jsval \<Rightarrow> js_error + string"
  and join_elems :: "(jsnum \<Rightarrow> string) \<Rightarrow> jsval list \<Rightarrow> js_error + string" where
  "ToString nts Undefined = Inr ''undefined''"
| "ToString nts Null = Inr ''null''"
| "ToString nts (Boolean b) = Inr (if b then ''true'' else ''false'')"
| "ToString nts (Number n) = Inr (nts n)"
| "ToString nts (Str s) = Inr s"
| "ToString nts (Arr xs) = join_elems nts xs"
| "ToString nts (Obj kvs) =
     (if ''toString'' \<in> set (map fst kvs) then Inl TypeError else Inr ''[object Object]'')"
| "join_elems nts [] = Inr []"
| "join_elems nts (x # xs) =
     (case (if nullish x then Inr [] else ToString nts x) of
        Inl err \<Rightarrow> Inl err
      | Inr a \<Rightarrow>
          (case join_elems nts xs of
             Inl err \<Rightarrow> Inl err
           | Inr b \<Rightarrow> Inr (if xs = [] then a else a @ '','' @ b)))"

text \<open>
  \<^verbatim>\<open>console.log(`... ${v} ...`)\<close>: the template literal converts \<open>v\<close> with \<^verbatim>\<open>ToString\<close> before
  anything is printed, and the conversion can throw. The text of the message is no part
  of any state below, so only the outcome is kept; it does not depend on how a number
  prints.
\<close>

definition log_message :: "jsval \<Rightarrow> js_error + unit" where
  "log_message v = (case ToString (\<lambda>n. []) v of Inl err \<Rightarrow> Inl err | Inr message \<Rightarrow> Inr ())"

text \<open>
  The own enumerable properties that \<^verbatim>\<open>{...v}\<close> copies: those of an object, the indexed
  elements of an array, the indexed code units of a string, nothing otherwise.
\<close>

fun spread_props :: "jsval \<Rightarrow> (string \<times> jsval) list" where
  "spread_props (Obj kvs) = kvs"
| "spread_props (Arr xs) = zip (map decimal [0..<length xs]) xs"
| "spread_props (Str s) = zip (map decimal [0..<length s]) (map (\<lambda>c. Str [c]) s)"
| "spread_props v = []"

text \<open>
  An object literal defines its properties from left to right: a key that is already
  there keeps its place and takes the new value, a new key goes to the end.
\<close>

fun define_props :: "(string \<times> jsval) list \<Rightarrow> (string \<times> jsval) list \<Rightarrow> (string \<times> jsval) list" where
  "define_props obj [] = obj"
| "define_props obj ((k, v) # kvs) = define_props (AList.update k v obj) kvs"

section \<open>JSON text\<close>

text \<open>
  \<^verbatim>\<open>JSON.stringify\<close> and \<^verbatim>\<open>JSON.parse\<close> belong to the platform. A JSON text is modelled by
  the document it encodes; \<open>NotJSON\<close> stands for every string that \<^verbatim>\<open>JSON.parse\<close> rejects
  (the empty string among them).
\<close>

datatype json = JNull | JBool bool | JNum rat | JStr string
  | JArr "json list" | JObj "(string \<times> json) list"

datatype json_text = NotJSON | JSONText json

text \<open>
  Serialisation: \<^verbatim>\<open>undefined\<close> has no JSON form (\<open>None\<close>); a property whose value is
  \<^verbatim>\<open>undefined\<close> is left out, an array element that is \<^verbatim>\<open>undefined\<close> becomes \<^verbatim>\<open>null\<close>, and so
  do \<^verbatim>\<open>NaN\<close> and the infinities.
\<close>

fun to_json :: "jsval \<Rightarrow> json option"
  and to_json_elems :: "jsval list \<Rightarrow> json list"
  and to_json_props :: "(string \<times> jsval) list \<Rightarrow> (string \<times> json) list" where
  "to_json Undefined = None"
| "to_json Null = Some JNull"
| "to_json (Boolean b) = Some (JBool b)"
| "to_json (Number n) = Some (case n of Fin q \<Rightarrow> JNum q | _ \<Rightarrow> JNull)"
| "to_json (Str s) = Some (JStr s)"
| "to_json (Arr xs) = Some (JArr (to_json_elems xs))"
| "to_json (Obj kvs) = Some (JObj (to_json_props kvs))"
| "to_json_elems [] = []"
| "to_json_elems (x # xs) =
     (case to_json x of None \<Rightarrow> JNull | Some j \<Rightarrow> j) # to_json_elems xs"
| "to_json_props [] = []"
| "to_json_props ((k, v) # kvs) =
     (case to_json v of None \<Rightarrow> to_json_props kvs | Some j \<Rightarrow> (k, j) # to_json_props kvs)"

text \<open>
  \<^verbatim>\<open>JSON.stringify(v)\<close>. The code applies it to an array and to an object literal only,
  where \<open>to_json\<close> is never \<open>None\<close>.
\<close>

definition JSON_stringify :: "jsval \<Rightarrow> json_text" where
  "JSON_stringify v = JSONText (case to_json v of Some j \<Rightarrow> j | None \<Rightarrow> JNull)"

text \<open>Parsing: where a key occurs twice in an object, the last value wins.\<close>

fun of_json :: "json \<Rightarrow> jsval"
  and of_json_elems :: "json list \<Rightarrow> jsval list"
  and of_json_props :: "(string \<times> jsval) list \<Rightarrow> (string \<times> json) list \<Rightarrow> (string \<times> jsval) list" where
  "of_json JNull = Null"
| "of_json (JBool b) = Boolean b"
| "of_json (JNum q) = Number (Fin q)"
| "of_json (JStr s) = Str s"
| "of_json (JArr js) = Arr (of_json_elems js)"
| "of_json (JObj kjs) = Obj (of_json_props [] kjs)"
| "of_json_elems [] = []"
| "of_json_elems (j # js) = of_json j # of_json_elems js"
| "of_json_props acc [] = acc"
| "of_json_props acc ((k, j) # kjs) = of_json_props (AList.update k (of_json j) acc) kjs"

definition JSON_parse :: "json_text \<Rightarrow> js_error + jsval" where
  "JSON_parse t = (case t of NotJSON \<Rightarrow> Inl SyntaxError | JSONText j \<Rightarrow> Inr (of_json j))"

section \<open>The vault store\<close>

text \<open>
  The state of \<^verbatim>\<open>VaultProvider\<close>: the React state \<^verbatim>\<open>cards\<close> and \<^verbatim>\<open>isLoading\<close>, and what
  \<^verbatim>\<open>AsyncStorage\<close> holds under \<^verbatim>\<open>VAULT_STORAGE_KEY\<close> (\<open>None\<close>: no such key). \<^verbatim>\<open>cards\<close> starts as
  \<^verbatim>\<open>[]\<close> and is an array throughout.
\<close>

record vault =
  cards :: "jsval list"
  isLoading :: bool
  storage :: "json_text option"

text \<open>
  What one call reads from outside: \<^verbatim>\<open>Date.now()\<close>, \<^verbatim>\<open>new Date().toISOString()\<close>, and
  whether its \<^verbatim>\<open>AsyncStorage\<close> request resolves (\<open>True\<close>) or rejects. Calls are run one
  after the other, each to its end.
\<close>

record env =
  now_ms :: nat
  now_iso :: string
  storage_ok :: bool

text \<open>
  \<^verbatim>\<open>loadCards\<close> catches every error. \<^verbatim>\<open>getItem\<close> rejecting, no key, the empty string
  (falsy), a text that does not parse, and the text \<^verbatim>\<open>null\<close> (whose \<^verbatim>\<open>.length\<close> throws
  after \<^verbatim>\<open>setCards(null)\<close>) all end in \<^verbatim>\<open>setCards([])\<close>. The result is \<open>None\<close> where the stored
  document is neither an array nor \<^verbatim>\<open>null\<close>: \<^verbatim>\<open>cards\<close> would stop being an array, which the
  state of this model cannot hold.
\<close>

definition loadCards :: "env \<Rightarrow> vault \<Rightarrow> vault option" where
  "loadCards e s =
     (if \<not> storage_ok e then Some (s\<lparr>cards := [], isLoading := False\<rparr>)
      else case storage s of
        None \<Rightarrow> Some (s\<lparr>cards := [], isLoading := False\<rparr>)
      | Some storedCards \<Rightarrow>
          (case JSON_parse storedCards of
             Inl err \<Rightarrow> Some (s\<lparr>cards := [], isLoading := False\<rparr>)
           | Inr (Arr parsedCards) \<Rightarrow> Some (s\<lparr>cards := parsedCards, isLoading := False\<rparr>)
           | Inr Null \<Rightarrow> Some (s\<lparr>cards := [], isLoading := False\<rparr>)
           | Inr other \<Rightarrow> None))"

definition saveCards :: "env \<Rightarrow> jsval list \<Rightarrow> vault \<Rightarrow> (js_error + unit) \<times> vault" where
  "saveCards e newCards s =
     (if storage_ok e then (Inr (), s\<lparr>storage := Some (JSON_stringify (Arr newCards))\<rparr>)
      else (Inl StorageError, s))"

text \<open>
  \<^verbatim>\<open>addCard\<close>. The twelve properties that the object literal writes before
  \<^verbatim>\<open>...cardData\<close>:
\<close>

definition card_literal :: "env \<Rightarrow> jsval \<Rightarrow> (string \<times> jsval) list" where
  "card_literal e cardData =
     [(''id'', js_or (field cardData ''id'') (Str (decimal (now_ms e)))),
      (''name'', field cardData ''name''),
      (''set'', js_or (field cardData ''set'') (Str ''Unknown Set'')),
      (''setNumber'', js_or (field cardData ''setNumber'') (Str ''Unknown'')),
      (''overallGrade'', js_or (field cardData ''overallGrade'') (Str ''N/A'')),
      (''subgrades'', js_or (field cardData ''subgrades'') (Obj [])),
      (''marketValue'', js_or (field cardData ''marketValue'') (Str ''N/A'')),
      (''photoUri'', field cardData ''photoUri''),
      (''scannedAt'', js_or (field cardData ''scannedAt'') (Str (now_iso e))),
      (''confidence'', js_or (field cardData ''confidence'') (Number (Fin 0))),
      (''notes'', js_or (field cardData ''notes'') (Str [])),
      (''tags'', js_or (field cardData ''tags'') (Arr []))]"

text \<open>
  \<^verbatim>\<open>cardData.id\<close> throws on \<^verbatim>\<open>null\<close> and \<^verbatim>\<open>undefined\<close>. \<^verbatim>\<open>setCards\<close> comes before
  \<^verbatim>\<open>saveCards\<close>, so a failed save leaves the new list in memory. After the save the
  message \<^verbatim>\<open>`Added ${card.name} to vault`\<close> is built: where that throws, the card is stored
  and the call fails all the same.
\<close>

definition addCard :: "env \<Rightarrow> jsval \<Rightarrow> vault \<Rightarrow> (js_error + jsval) \<times> vault" where
  "addCard e cardData s =
     (if nullish cardData then (Inl TypeError, s)
      else
        let newCard = Obj (define_props [] (card_literal e cardData @ spread_props cardData));
            newCards = newCard # cards s;
            s1 = s\<lparr>cards := newCards\<rparr>
        in case saveCards e newCards s1 of
             (Inl err, s2) \<Rightarrow> (Inl err, s2)
           | (Inr u, s2) \<Rightarrow>
               (case log_message (field newCard ''name'') of
                  Inl err \<Rightarrow> (Inl err, s2)
                | Inr u' \<Rightarrow> (Inr newCard, s2)))"

text \<open>
  \<^verbatim>\<open>a === b\<close>. \<^verbatim>\<open>NaN\<close> differs from itself. Two objects or arrays are \<^verbatim>\<open>===\<close> only when
  they are one and the same object; the model has no object identities and takes the
  two operands to be different objects.
\<close>

fun strict_equals :: "jsval \<Rightarrow> jsval \<Rightarrow> bool" where
  "strict_equals (Number NaN) b = False"
| "strict_equals (Arr xs) b = False"
| "strict_equals (Obj kvs) b = False"
| "strict_equals a b = (a = b)"

text \<open>
  \<^verbatim>\<open>updateCard\<close>: \<^verbatim>\<open>card.id\<close> throws on a card that is \<^verbatim>\<open>null\<close> or \<^verbatim>\<open>undefined\<close>; after the
  save the message \<^verbatim>\<open>`Updated card ${cardId}`\<close> is built; the result is what \<^verbatim>\<open>find\<close>
  returns, \<^verbatim>\<open>undefined\<close> when no card has that id.
\<close>

definition updateCard :: "env \<Rightarrow> jsval \<Rightarrow> jsval \<Rightarrow> vault \<Rightarrow> (js_error + jsval) \<times> vault" where
  "updateCard e cardId updates s =
     (if list_ex nullish (cards s) then (Inl TypeError, s)
      else
        let updatedCards = map (\<lambda>card.
              if strict_equals (field card ''id'') cardId
              then Obj (define_props []
                     (spread_props card @ spread_props updates
                        @ [(''updatedAt'', Str (now_iso e))]))
              else card) (cards s);
            s1 = s\<lparr>cards := updatedCards\<rparr>
        in case saveCards e updatedCards s1 of
             (Inl err, s2) \<Rightarrow> (Inl err, s2)
           | (Inr u, s2) \<Rightarrow>
               (case log_message cardId of
                  Inl err \<Rightarrow> (Inl err, s2)
                | Inr u' \<Rightarrow>
                    (Inr (case find (\<lambda>card. strict_equals (field card ''id'') cardId)
                                 updatedCards of
                            Some found \<Rightarrow> found | None \<Rightarrow> Undefined), s2)))"

text \<open>\<^verbatim>\<open>deleteCard\<close>, with the message \<^verbatim>\<open>`Deleted card ${cardId}`\<close> after the save.\<close>

definition deleteCard :: "env \<Rightarrow> jsval \<Rightarrow> vault \<Rightarrow> (js_error + unit) \<times> vault" where
  "deleteCard e cardId s =
     (if list_ex nullish (cards s) then (Inl TypeError, s)
      else
        let updatedCards = filter (\<lambda>card. \<not> strict_equals (field card ''id'') cardId) (cards s);
            s1 = s\<lparr>cards := updatedCards\<rparr>
        in case saveCards e updatedCards s1 of
             (Inl err, s2) \<Rightarrow> (Inl err, s2)
           | (Inr u, s2) \<Rightarrow>
               (case log_message cardId of
                  Inl err \<Rightarrow> (Inl err, s2)
                | Inr u' \<Rightarrow> (Inr (), s2)))"

section \<open>Export and import\<close>

text \<open>\<^verbatim>\<open>exportVault\<close>: nothing in it can throw on the values of this model.\<close>

definition exportVault :: "env \<Rightarrow> vault \<Rightarrow> json_text" where
  "exportVault e s =
     JSON_stringify (Obj (define_props []
       [(''exportedAt'', Str (now_iso e)),
        (''version'', Str ''1.0''),
        (''totalCards'', Number (Fin (of_nat (length (cards s))))),
        (''cards'', Arr (map (\<lambda>card. Obj (define_props []
                                 (spread_props card @ [(''photoUri'', Null)]))) (cards s)))]))"

text \<open>
  \<^verbatim>\<open>Set.prototype.has\<close> compares with SameValueZero: \<^verbatim>\<open>NaN\<close> equals itself, and an object
  or array equals only itself. The imported cards come out of \<^verbatim>\<open>JSON.parse\<close>, so an object
  or array among their ids is never one that the vault already holds.
\<close>

fun same_value_zero :: "jsval \<Rightarrow> jsval \<Rightarrow> bool" where
  "same_value_zero (Arr xs) b = False"
| "same_value_zero (Obj kvs) b = False"
| "same_value_zero a b = (a = b)"

fun isArray :: "jsval \<Rightarrow> bool" where
  "isArray (Arr xs) = True"
| "isArray v = False"

fun elems :: "jsval \<Rightarrow> jsval list" where
  "elems (Arr xs) = xs"
| "elems v = []"

text \<open>
  The merge branch of \<^verbatim>\<open>importVault\<close>: \<^verbatim>\<open>card.id\<close> throws on a card that is \<^verbatim>\<open>null\<close> or
  \<^verbatim>\<open>undefined\<close>, in the vault or in the import.
\<close>

definition merge_cards :: "jsval list \<Rightarrow> jsval list \<Rightarrow> js_error + jsval list" where
  "merge_cards existing importCards =
     (if list_ex nullish existing \<or> list_ex nullish importCards then Inl TypeError
      else
        let existingIds = map (\<lambda>card. field card ''id'') existing;
            uniqueImportCards = filter (\<lambda>card.
              \<not> list_ex (\<lambda>i. same_value_zero (field card ''id'') i) existingIds) importCards
        in Inr (existing @ uniqueImportCards))"

text \<open>The object \<^verbatim>\<open>{imported, total}\<close> that \<^verbatim>\<open>importVault\<close> returns.\<close>

record import_counts =
  imported :: nat
  total :: nat

text \<open>
  \<^verbatim>\<open>importVault(jsonData, options)\<close>; \<open>merge\<close> is the truthiness of \<^verbatim>\<open>options.merge\<close>. Every
  throw before \<^verbatim>\<open>setCards\<close> leaves the state as it was.
\<close>

definition importVault ::
  "env \<Rightarrow> json_text \<Rightarrow> bool \<Rightarrow> vault \<Rightarrow> (js_error + import_counts) \<times> vault" where
  "importVault e jsonData merge s =
     (case JSON_parse jsonData of
        Inl err \<Rightarrow> (Inl err, s)
      | Inr importData \<Rightarrow>
          (case get_prop importData ''cards'' of
             Inl err \<Rightarrow> (Inl err, s)
           | Inr importCards \<Rightarrow>
               if \<not> truthy importCards \<or> \<not> isArray importCards
               then (Inl (Error ''Invalid import data format''), s)
               else
                 (case (if merge then merge_cards (cards s) (elems importCards)
                        else Inr (elems importCards)) of
                    Inl err \<Rightarrow> (Inl err, s)
                  | Inr newCards \<Rightarrow>
                      let s1 = s\<lparr>cards := newCards\<rparr>
                      in case saveCards e newCards s1 of
                           (Inl err, s2) \<Rightarrow> (Inl err, s2)
                         | (Inr u, s2) \<Rightarrow>
                             (Inr \<lparr>imported = length (elems importCards),
                                   total = length newCards\<rparr>, s2))))"

text \<open>
  The values that JSON carries unchanged: no \<^verbatim>\<open>undefined\<close>, no \<^verbatim>\<open>NaN\<close>, no infinity, at any
  depth (and objects whose keys are distinct, as those of every object are).
\<close>

fun json_data :: "jsval \<Rightarrow> bool"
  and json_data_elems :: "jsval list \<Rightarrow> bool"
  and json_data_props :: "(string \<times> jsval) list \<Rightarrow> bool" where
  "json_data Undefined = False"
| "json_data Null = True"
| "json_data (Boolean b) = True"
| "json_data (Number n) = (case n of Fin q \<Rightarrow> True | _ \<Rightarrow> False)"
| "json_data (Str s) = True"
| "json_data (Arr xs) = json_data_elems xs"
| "json_data (Obj kvs) = (distinct (map fst kvs) \<and> json_data_props kvs)"
| "json_data_elems [] = True"
| "json_data_elems (x # xs) = (json_data x \<and> json_data_elems xs)"
| "json_data_props [] = True"
| "json_data_props ((k, v) # kvs) = (json_data v \<and> json_data_props kvs)"

text \<open>
  An entry whose fields JSON can carry: an object each of whose properties is
  \<^verbatim>\<open>undefined\<close> (as \<^verbatim>\<open>photoUri\<close> and \<^verbatim>\<open>name\<close> are when \<^verbatim>\<open>addCard\<close> was given none) or JSON data.
\<close>

fun json_fields :: "(string \<times> jsval) list \<Rightarrow> bool" where
  "json_fields [] = True"
| "json_fields ((k, v) # kvs) = ((v = Undefined \<or> json_data v) \<and> json_fields kvs)"

fun json_entry :: "jsval \<Rightarrow> bool" where
  "json_entry (Obj kvs) = (distinct (map fst kvs) \<and> json_fields kvs)"
| "json_entry v = False"

text \<open>Two entries that agree in every field but \<^verbatim>\<open>photoUri\<close>, which is \<^verbatim>\<open>null\<close> in the first.\<close>

definition same_but_photoUri :: "jsval \<Rightarrow> jsval \<Rightarrow> bool" where
  "same_but_photoUri c' c \<longleftrightarrow>
     field c' ''photoUri'' = Null \<and> (\<forall>k. k \<noteq> ''photoUri'' \<longrightarrow> field c' k = field c k)"

section \<open>Collection statistics\<close>

text \<open>
  A number of JavaScript is an IEEE 754 double, and every arithmetic operation returns
  the double nearest to the exact result, the one with the even significand where two
  are equally near. \<open>round_double q\<close> is that double for the exact result \<open>q\<close>: with
  \<open>\<bar>q\<bar> = m \<cdot> 2\<^sup>e\<close>, where \<open>2\<^sup>5\<^sup>2 \<le> m < 2\<^sup>5\<^sup>3\<close>, or \<open>e = -1074\<close> and \<open>m < 2\<^sup>5\<^sup>2\<close> for a number in the range of
  the subnormal doubles, \<open>m\<close> is rounded to an integer; a result of \<open>2\<^sup>1\<^sup>0\<^sup>2\<^sup>4\<close> or more is an
  infinity.
\<close>

definition round_half_even :: "rat \<Rightarrow> int" where
  "round_half_even x =
     (let n = \<lfloor>x\<rfloor>; r = x - of_int n
      in if r < 1 / 2 then n else if 1 / 2 < r then n + 1 else if even n then n else n + 1)"

text \<open>Halving \<open>m\<close> until it is below \<open>2\<^sup>5\<^sup>3\<close>; \<open>m \<cdot> 2\<^sup>e\<close> stays the same.\<close>

function scale_down :: "rat \<Rightarrow> int \<Rightarrow> rat \<times> int" where
  "scale_down m e = (if 2 ^ 53 \<le> m then scale_down (m / 2) (e + 1) else (m, e))"
  by pat_completeness auto

termination
proof (relation "measure (\<lambda>(m, e). nat \<lfloor>m\<rfloor>)")
  show "wf (measure (\<lambda>(m, e). nat \<lfloor>m\<rfloor>))" by simp
next
  fix m :: rat and e :: int
  assume m: "2 ^ 53 \<le> m"
  have "m / 2 + 1 \<le> m"
    using m by simp
  then have "\<lfloor>m / 2\<rfloor> + 1 \<le> \<lfloor>m\<rfloor>"
    by (metis floor_mono floor_add_int of_int_1 add.commute floor_one)
  moreover have "0 \<le> \<lfloor>m / 2\<rfloor>"
    using m by simp
  ultimately have "nat \<lfloor>m / 2\<rfloor> < nat \<lfloor>m\<rfloor>"
    by linarith
  then show "((m / 2, e + 1), (m, e)) \<in> measure (\<lambda>(m, e). nat \<lfloor>m\<rfloor>)"
    by simp
qed

text \<open>Doubling \<open>m\<close> until it is \<open>2\<^sup>5\<^sup>2\<close> or more, or the exponent is the least one, \<open>-1074\<close>.\<close>

function scale_up :: "rat \<Rightarrow> int \<Rightarrow> rat \<times> int" where
  "scale_up m e = (if m < 2 ^ 52 \<and> - 1074 < e then scale_up (m * 2) (e - 1) else (m, e))"
  by pat_completeness auto

termination
  by (relation "measure (\<lambda>(m, e). nat (e + 1074))") auto

declare scale_down.simps [simp del] scale_up.simps [simp del]

text \<open>\<open>n \<cdot> 2\<^sup>e\<close>\<close>

definition scaled :: "int \<Rightarrow> int \<Rightarrow> rat" where
  "scaled n e = of_int n * 2 powi e"

definition round_double :: "rat \<Rightarrow> jsnum" where
  "round_double q =
     (if q = 0 then Fin 0
      else
        let (m0, e0) = scale_down \<bar>q\<bar> 0;
            (m, e) = scale_up m0 e0;
            r = scaled (round_half_even m) e
        in if 2 ^ 1024 \<le> r then (if q < 0 then NegInf else PosInf)
           else Fin (if q < 0 then - r else r))"

text \<open>Arithmetic on numbers, with the special values as IEEE 754 has them.\<close>

fun js_add :: "jsnum \<Rightarrow> jsnum \<Rightarrow> jsnum" where
  "js_add NaN b = NaN"
| "js_add a NaN = NaN"
| "js_add PosInf NegInf = NaN"
| "js_add NegInf PosInf = NaN"
| "js_add PosInf b = PosInf"
| "js_add a PosInf = PosInf"
| "js_add NegInf b = NegInf"
| "js_add a NegInf = NegInf"
| "js_add (Fin a) (Fin b) = round_double (a + b)"

fun js_neg :: "jsnum \<Rightarrow> jsnum" where
  "js_neg NaN = NaN"
| "js_neg PosInf = NegInf"
| "js_neg NegInf = PosInf"
| "js_neg (Fin a) = Fin (- a)"

definition js_sub :: "jsnum \<Rightarrow> jsnum \<Rightarrow> jsnum" where
  "js_sub a b = js_add a (js_neg b)"

text \<open>\<^verbatim>\<open>x * c\<close> and \<^verbatim>\<open>x / c\<close> for a positive integer \<open>c\<close>.\<close>

fun js_times :: "jsnum \<Rightarrow> nat \<Rightarrow> jsnum" where
  "js_times (Fin a) c = round_double (a * of_nat c)"
| "js_times x c = x"

fun js_over :: "jsnum \<Rightarrow> nat \<Rightarrow> jsnum" where
  "js_over (Fin a) c = round_double (a / of_nat c)"
| "js_over x c = x"

text \<open>
  \<^verbatim>\<open>Math.floor\<close> and \<^verbatim>\<open>Math.round\<close> (halves go up): of a double they are exact.
\<close>

fun Math_floor :: "jsnum \<Rightarrow> jsnum" where
  "Math_floor (Fin a) = Fin (of_int \<lfloor>a\<rfloor>)"
| "Math_floor x = x"

fun Math_round_num :: "jsnum \<Rightarrow> jsnum" where
  "Math_round_num (Fin a) = Fin (of_int \<lfloor>a + 1 / 2\<rfloor>)"
| "Math_round_num x = x"

text \<open>\<^verbatim>\<open>x || 0\<close> for a number \<open>x\<close>: \<^verbatim>\<open>NaN\<close> and \<^verbatim>\<open>0\<close> are falsy.\<close>

definition or_zero :: "jsnum \<Rightarrow> jsnum" where
  "or_zero x = (if x = NaN \<or> x = Fin 0 then Fin 0 else x)"

text \<open>
  \<^verbatim>\<open>s.replace(p, '')\<close> for a pattern \<open>p\<close> that is a string of one character: the first
  occurrence goes, the others stay.
\<close>

definition replace_by_empty :: "char \<Rightarrow> string \<Rightarrow> string" where
  "replace_by_empty p s = remove1 p s"

text \<open>
  \<^verbatim>\<open>parseFloat\<close> of a string: leading white space is skipped, then the longest prefix that
  is a decimal literal counts (a sign, then \<^verbatim>\<open>Infinity\<close> or digits with an optional fraction
  and an optional exponent); \<^verbatim>\<open>NaN\<close> if there is none. The value is the double nearest to
  the number that the literal denotes.
\<close>

definition is_space :: "char \<Rightarrow> bool" where
  "is_space c = ((of_char c :: nat) \<in> {9, 10, 11, 12, 13, 32, 160})"

definition is_digit :: "char \<Rightarrow> bool" where
  "is_digit c = (48 \<le> (of_char c :: nat) \<and> (of_char c :: nat) \<le> 57)"

definition digits_value :: "string \<Rightarrow> nat" where
  "digits_value ds = foldl (\<lambda>n c. 10 * n + (of_char c - 48)) 0 ds"

text \<open>The exponent part at the head of \<open>s\<close>, 0 if there is none or it has no digit.\<close>

definition exponent :: "string \<Rightarrow> int" where
  "exponent s =
     (case s of
        [] \<Rightarrow> 0
      | c # cs \<Rightarrow>
          if c = CHR ''e'' \<or> c = CHR ''E'' then
            (let negative = (case cs of [] \<Rightarrow> False | d # ds \<Rightarrow> d = CHR ''-'');
                 ds = (case cs of [] \<Rightarrow> []
                       | d # ds \<Rightarrow> if d = CHR ''+'' \<or> d = CHR ''-'' then ds else cs);
                 es = takeWhile is_digit ds
             in if negative then - int (digits_value es) else int (digits_value es))
          else 0)"

definition parseFloat :: "string \<Rightarrow> jsnum" where
  "parseFloat input =
     (let s = dropWhile is_space input;
          negative = (case s of [] \<Rightarrow> False | c # cs \<Rightarrow> c = CHR ''-'');
          s1 = (case s of [] \<Rightarrow> []
                | c # cs \<Rightarrow> if c = CHR ''+'' \<or> c = CHR ''-'' then cs else s)
      in if take 8 s1 = ''Infinity'' then (if negative then NegInf else PosInf)
         else
           let ip = takeWhile is_digit s1;
               r1 = dropWhile is_digit s1;
               fp = (case r1 of [] \<Rightarrow> []
                     | c # cs \<Rightarrow> if c = CHR ''.'' then takeWhile is_digit cs else []);
               r2 = (case r1 of [] \<Rightarrow> []
                     | c # cs \<Rightarrow> if c = CHR ''.'' then dropWhile is_digit cs else r1)
           in if ip = [] \<and> fp = [] then NaN
              else
                let mantissa = (of_nat (digits_value ip) :: rat)
                                 + of_nat (digits_value fp) / 10 ^ length fp;
                    ex = exponent r2;
                    v = (if 0 \<le> ex then mantissa * 10 ^ nat ex
                         else mantissa / 10 ^ nat (- ex))
                in round_double (if negative then - v else v))"

text \<open>
  Printing an integer below \<open>10\<^sup>2\<^sup>1\<close>, \<^verbatim>\<open>NaN\<close> and the infinities, for the examples (where
  no other number is printed).
\<close>

definition integer_toString :: "jsnum \<Rightarrow> string" where
  "integer_toString n =
     (case n of
        NaN \<Rightarrow> ''NaN''
      | PosInf \<Rightarrow> ''Infinity''
      | NegInf \<Rightarrow> ''-Infinity''
      | Fin q \<Rightarrow> (if q < 0 then ''-'' else []) @ decimal (nat \<lfloor>\<bar>q\<bar>\<rfloor>))"

text \<open>
  \<^verbatim>\<open>parseFloat(card.marketValue.replace('$', '').replace(',', '')) || 0\<close>, for a card \<open>c\<close> that
  is neither \<^verbatim>\<open>null\<close> nor \<^verbatim>\<open>undefined\<close>: only a string has \<^verbatim>\<open>replace\<close>.
\<close>

definition price_of :: "jsval \<Rightarrow> js_error + jsnum" where
  "price_of c =
     (case field c ''marketValue'' of
        Str s \<Rightarrow> Inr (or_zero (parseFloat
                   (replace_by_empty CHR '','' (replace_by_empty CHR ''$'' s))))
      | other \<Rightarrow> Inl TypeError)"

text \<open>The callback of \<^verbatim>\<open>cards.reduce\<close> in \<^verbatim>\<open>getTotalValue\<close>, from the running total on.\<close>

fun reduce_total :: "jsnum \<Rightarrow> jsval list \<Rightarrow> js_error + jsnum" where
  "reduce_total tot [] = Inr tot"
| "reduce_total tot (c # rest) =
     (if nullish c then Inl TypeError
      else if truthy (field c ''marketValue'') \<and> field c ''marketValue'' \<noteq> Str ''N/A''
      then (case price_of c of
              Inl err \<Rightarrow> Inl err
            | Inr v \<Rightarrow> reduce_total (js_add tot v) rest)
      else reduce_total tot rest)"

definition getTotalValue :: "jsval list \<Rightarrow> js_error + jsnum" where
  "getTotalValue cs = reduce_total (Fin 0) cs"

text \<open>
  \<^verbatim>\<open>Array.prototype.sort\<close> with a comparator that may throw. The sort is stable; for a
  comparator that orders the elements consistently, as the one below does, the result is
  the one of this insertion sort. A result of the comparator above 0 puts the second
  argument first; 0 and \<^verbatim>\<open>NaN\<close> keep the order. With two or more elements the comparator
  is called on each of them.
\<close>

fun above_zero :: "jsnum \<Rightarrow> bool" where
  "above_zero PosInf = True"
| "above_zero (Fin a) = (0 < a)"
| "above_zero x = False"

fun insert_sorted :: "('a \<Rightarrow> 'a \<Rightarrow> js_error + jsnum) \<Rightarrow> 'a \<Rightarrow> 'a list \<Rightarrow> js_error + 'a list" where
  "insert_sorted cmp x [] = Inr [x]"
| "insert_sorted cmp x (y # ys) =
     (case cmp x y of
        Inl err \<Rightarrow> Inl err
      | Inr d \<Rightarrow>
          if above_zero d
          then (case insert_sorted cmp x ys of Inl err \<Rightarrow> Inl err | Inr r \<Rightarrow> Inr (y # r))
          else Inr (x # y # ys))"

fun Array_sort :: "('a \<Rightarrow> 'a \<Rightarrow> js_error + jsnum) \<Rightarrow> 'a list \<Rightarrow> js_error + 'a list" where
  "Array_sort cmp [] = Inr []"
| "Array_sort cmp (x # xs) =
     (case Array_sort cmp xs of Inl err \<Rightarrow> Inl err | Inr ys \<Rightarrow> insert_sorted cmp x ys)"

text \<open>The comparator of \<^verbatim>\<open>topCards\<close>: \<^verbatim>\<open>bValue - aValue\<close>.\<close>

definition by_value_desc :: "jsval \<Rightarrow> jsval \<Rightarrow> js_error + jsnum" where
  "by_value_desc a b =
     (case price_of a of
        Inl err \<Rightarrow> Inl err
      | Inr aValue \<Rightarrow>
          (case price_of b of Inl err \<Rightarrow> Inl err | Inr bValue \<Rightarrow> Inr (js_sub bValue aValue)))"

text \<open>
  \<^verbatim>\<open>validGrades\<close>, as the grades \<^verbatim>\<open>parseFloat(card.overallGrade)\<close> of the cards that the
  filter keeps.
\<close>

fun valid_grades :: "(jsnum \<Rightarrow> string) \<Rightarrow> jsval list \<Rightarrow> js_error + jsnum list" where
  "valid_grades nts [] = Inr []"
| "valid_grades nts (c # rest) =
     (if nullish c then Inl TypeError
      else if field c ''overallGrade'' = Str ''N/A''
      then valid_grades nts rest
      else (case ToString nts (field c ''overallGrade'') of
              Inl err \<Rightarrow> Inl err
            | Inr s \<Rightarrow>
                (case valid_grades nts rest of
                   Inl err \<Rightarrow> Inl err
                 | Inr gs \<Rightarrow> Inr (if parseFloat s = NaN then gs else parseFloat s # gs))))"

text \<open>
  \<^verbatim>\<open>counts[k] = (counts[k] || 0) + 1\<close> on a histogram that starts as \<^verbatim>\<open>{}\<close>. The object
  inherits the properties of \<^verbatim>\<open>Object.prototype\<close>: where \<open>k\<close> names one of them and the
  histogram has no entry for \<open>k\<close> yet, \<^verbatim>\<open>counts[k]\<close> is a function (for \<^verbatim>\<open>__proto__\<close> the prototype
  itself), which is truthy, so that \<^verbatim>\<open>+ 1\<close> makes a string of it, and every later \<^verbatim>\<open>+ 1\<close> a
  longer string. The text of that string is not modelled: \<open>NotACount\<close> stands for it.
  Assigning a string to \<^verbatim>\<open>__proto__\<close> changes nothing.
\<close>

datatype count = Count nat | NotACount

type_synonym histogram = "string \<rightharpoonup> count"

definition inherited_names :: "string list" where
  "inherited_names =
     [''constructor'', ''__proto__'', ''__defineGetter__'', ''__defineSetter__'',
      ''__lookupGetter__'', ''__lookupSetter__'', ''hasOwnProperty'', ''isPrototypeOf'',
      ''propertyIsEnumerable'', ''toLocaleString'', ''toString'', ''valueOf'']"

definition count_key :: "string \<Rightarrow> histogram \<Rightarrow> histogram" where
  "count_key k counts =
     (case counts k of
        Some (Count n) \<Rightarrow> counts(k \<mapsto> Count (n + 1))
      | Some NotACount \<Rightarrow> counts(k \<mapsto> NotACount)
      | None \<Rightarrow>
          if k = ''__proto__'' then counts
          else if k \<in> set inherited_names then counts(k \<mapsto> NotACount)
          else counts(k \<mapsto> Count 1))"

fun set_counts :: "(jsnum \<Rightarrow> string) \<Rightarrow> histogram \<Rightarrow> jsval list \<Rightarrow> js_error + histogram" where
  "set_counts nts counts [] = Inr counts"
| "set_counts nts counts (c # rest) =
     (if nullish c then Inl TypeError
      else (case ToString nts (field c ''set'') of
              Inl err \<Rightarrow> Inl err
            | Inr k \<Rightarrow> set_counts nts (count_key k counts) rest))"

record stats =
  totalCards :: nat
  totalValue :: jsnum
  averageGrade :: jsnum
  gradeCounts :: histogram
  setCounts :: histogram
  topCards :: "jsval list"

definition getCollectionStats :: "(jsnum \<Rightarrow> string) \<Rightarrow> jsval list \<Rightarrow> js_error + stats" where
  "getCollectionStats nts cs =
     (if length cs = 0
      then Inr \<lparr>totalCards = 0, totalValue = Fin 0, averageGrade = Fin 0,
                gradeCounts = Map.empty, setCounts = Map.empty, topCards = []\<rparr>
      else
        case valid_grades nts cs of
          Inl err \<Rightarrow> Inl err
        | Inr validGrades \<Rightarrow>
        case set_counts nts Map.empty cs of
          Inl err \<Rightarrow> Inl err
        | Inr setCounts' \<Rightarrow>
        case Array_sort by_value_desc
               (filter (\<lambda>card. field card ''marketValue'' \<noteq> Str ''N/A'') cs) of
          Inl err \<Rightarrow> Inl err
        | Inr sortedCards \<Rightarrow>
        case getTotalValue cs of
          Inl err \<Rightarrow> Inl err
        | Inr tv \<Rightarrow>
            let gradeCounts' = foldl (\<lambda>counts g. count_key (nts (Math_floor g)) counts)
                                Map.empty validGrades;
                 totalGrade = foldl js_add (Fin 0) validGrades;
                 average = (if 0 < length validGrades
                            then js_over totalGrade (length validGrades)
                            else Fin 0)
            in Inr \<lparr>totalCards = length cs,
                     totalValue = tv,
                     averageGrade = js_over (Math_round_num (js_times average 10)) 10,
                     gradeCounts = gradeCounts',
                     setCounts = setCounts',
                     topCards = take 5 sortedCards\<rparr>)"

section \<open>The mock grading generator\<close>

text \<open>
  \<^verbatim>\<open>String.prototype.toLowerCase\<close> on code units below 256: the letters \<^verbatim>\<open>A\<close> to \<^verbatim>\<open>Z\<close>, and
  the Latin-1 capitals U+00C0 to U+00DE without the multiplication sign U+00D7, move up
  by 32.
\<close>

definition toLowerCase_char :: "char \<Rightarrow> char" where
  "toLowerCase_char c =
     (let n = of_char c :: nat
      in if (65 \<le> n \<and> n \<le> 90) \<or> (192 \<le> n \<and> n \<le> 214) \<or> (216 \<le> n \<and> n \<le> 222)
         then char_of (n + 32) else c)"

definition toLowerCase :: "string \<Rightarrow> string" where
  "toLowerCase s = map toLowerCase_char s"

text \<open>
  \<^verbatim>\<open>cardName.toLowerCase().charCodeAt(0) || 80\<close>: \<^verbatim>\<open>charCodeAt(0)\<close> of the empty string is
  \<^verbatim>\<open>NaN\<close>, which is falsy, and so is the code 0.
\<close>

definition seed :: "string \<Rightarrow> nat" where
  "seed cardName =
     (case toLowerCase cardName of
        [] \<Rightarrow> 80
      | c # cs \<Rightarrow> if (of_char c :: nat) = 0 then 80 else of_char c)"

definition baseGrade :: "string \<Rightarrow> nat" where
  "baseGrade cardName = 7 + seed cardName mod 3"

text \<open>
  \<^verbatim>\<open>variation\<close>, given the value \<open>r\<close> that \<^verbatim>\<open>Math.random()\<close> returned (\<open>0 \<le> r < 1\<close>). Numbers are
  real numbers here: the rounding of doubles is not modelled.
\<close>

definition variation :: "real \<Rightarrow> real" where
  "variation r = (r - 0.5) * 1.5"

text \<open>\<^verbatim>\<open>Math.round(x)\<close>: halves go up.\<close>

definition Math_round :: "real \<Rightarrow> real" where
  "Math_round x = of_int \<lfloor>x + 1 / 2\<rfloor>"

record grading =
  centering :: real
  surface :: real
  edges :: real
  corners :: real

text \<open>
  \<^verbatim>\<open>generateMockGrading(cardName = 'Unknown')\<close>; \<open>None\<close> is the argument left out or
  \<^verbatim>\<open>undefined\<close>. \<open>r1\<close> to \<open>r4\<close> are the four values of \<^verbatim>\<open>Math.random()\<close>, in the order of the
  calls. The loop over \<^verbatim>\<open>Object.keys(grading)\<close> rounds each axis to one decimal.
\<close>

definition generateMockGrading :: "string option \<Rightarrow> real \<Rightarrow> real \<Rightarrow> real \<Rightarrow> real \<Rightarrow> grading" where
  "generateMockGrading cardNameArg r1 r2 r3 r4 =
     (let cardName = (case cardNameArg of None \<Rightarrow> ''Unknown'' | Some n \<Rightarrow> n);
          base = real (baseGrade cardName);
          g = \<lparr>centering = min 10 (max 5 (base + variation r1)),
               surface = min 10 (max 5 (base + variation r2)),
               edges = min 10 (max 5 (base + variation r3)),
               corners = min 10 (max 5 (base + variation r4))\<rparr>
      in \<lparr>centering = Math_round (centering g * 10) / 10,
          surface = Math_round (surface g * 10) / 10,
          edges = Math_round (edges g * 10) / 10,
          corners = Math_round (corners g * 10) / 10\<rparr>)"

section \<open>The radar chart\<close>









section \<open>Notions used in the statements\<close>

text \<open>
  The right operands of \<^verbatim>\<open>||\<close> in the object literal of \<^verbatim>\<open>addCard\<close>: the defaults, by key.
\<close>

definition defaults :: "env \<Rightarrow> (string \<times> jsval) list" where
  "defaults e =
     [(''id'', Str (decimal (now_ms e))),
      (''set'', Str ''Unknown Set''),
      (''setNumber'', Str ''Unknown''),
      (''overallGrade'', Str ''N/A''),
      (''subgrades'', Obj []),
      (''marketValue'', Str ''N/A''),
      (''scannedAt'', Str (now_iso e)),
      (''confidence'', Number (Fin 0)),
      (''notes'', Str []),
      (''tags'', Arr [])]"

text \<open>
  The object that \<^verbatim>\<open>handleSaveToVault\<close> passes to \<^verbatim>\<open>addCard\<close> for a scan whose result has
  no \<^verbatim>\<open>set_number\<close> and no \<^verbatim>\<open>cv_confidence\<close>: the literal there has the ten keys whatever
  the scan found.
\<close>

definition scanned_card :: "(string \<times> jsval) list" where
  "scanned_card =
     [(''id'', Str ''1700000000123''),
      (''name'', Str ''Pikachu''),
      (''set'', Str ''Base Set''),
      (''setNumber'', Undefined),
      (''overallGrade'', Number (Fin (17 / 2))),
      (''subgrades'', Obj [(''centering'', Number (Fin 8)), (''surface'', Number (Fin 9))]),
      (''marketValue'', Str ''N/A''),
      (''photoUri'', Str ''file:///photo.jpg''),
      (''scannedAt'', Str ''2023-11-14T22:13:20.123Z''),
      (''confidence'', Undefined)]"

text \<open>
  The number that the code parses from the \<^verbatim>\<open>marketValue\<close> of a card, before \<^verbatim>\<open>|| 0\<close>; \<^verbatim>\<open>NaN\<close>
  when the parse fails and when \<^verbatim>\<open>marketValue\<close> is not a string.
\<close>

definition parsed_value :: "jsval \<Rightarrow> jsnum" where
  "parsed_value c =
     (case field c ''marketValue'' of
        Str s \<Rightarrow> parseFloat (replace_by_empty CHR '','' (replace_by_empty CHR ''$'' s))
      | other \<Rightarrow> NaN)"




text \<open>
  The price of an entry as the claim on the statistics reads it: the float parsed from
  \<^verbatim>\<open>marketValue\<close> after every \<^verbatim>\<open>$\<close> and every thousands separator is removed; \<^verbatim>\<open>NaN\<close> when
  that does not parse and when \<^verbatim>\<open>marketValue\<close> is not a string.
\<close>

definition stripped_value :: "jsval \<Rightarrow> jsnum" where
  "stripped_value c =
     (case field c ''marketValue'' of
        Str s \<Rightarrow> parseFloat (filter (\<lambda>x. x \<noteq> CHR ''$'' \<and> x \<noteq> CHR '','') s)
      | other \<Rightarrow> NaN)"



text \<open>
  The doubles: the numbers that rounding leaves as they are. Each is a whole multiple
  of \<open>2\<^sup>-\<^sup>1\<^sup>0\<^sup>7\<^sup>4\<close>.
\<close>

definition double :: "rat \<Rightarrow> bool" where
  "double q \<longleftrightarrow> round_double q = Fin q"


definition on_grid :: "rat \<Rightarrow> bool" where
  "on_grid q \<longleftrightarrow> (\<exists>n :: int. q = of_int n * 2 powi (- 1074))"






section \<open>Properties of object literals\<close>

lemma map_of_define_props:
  "map_of (define_props obj kvs) = map_of obj ++ map_of (rev kvs)"
proof (induction kvs arbitrary: obj)
  case Nil
  show ?case by simp
next
  case (Cons p kvs)
  obtain k v where p: "p = (k, v)" by (cases p)
  show ?case
    by (rule ext) (simp add: p Cons.IH AList.update_conv' map_add_def split: option.splits)
qed

lemma map_of_define_props_absent:
  assumes "k \<notin> fst ` set kvs"
  shows "map_of (define_props obj kvs) k = map_of obj k"
proof -
  have "map_of (rev kvs) k = None"
    using assms by (simp add: map_of_eq_None_iff)
  then show ?thesis
    by (simp add: map_of_define_props map_add_def)
qed

lemma map_of_define_props_present:
  assumes "(k, v) \<in> set kvs" and "distinct (map fst kvs)"
  shows "map_of (define_props obj kvs) k = Some v"
proof -
  have "map_of (rev kvs) k = Some v"
    using assms by (simp add: distinct_rev rev_map [symmetric] del: rev_map)
  then show ?thesis
    by (simp add: map_of_define_props map_add_def)
qed

lemma define_props_append:
  "define_props obj (xs @ ys) = define_props (define_props obj xs) ys"
  by (induction xs arbitrary: obj) auto

section \<open>Adding a card\<close>

lemma ToString_outcome:
  "isl (ToString nts v) = isl (ToString nts' v)"
  "isl (join_elems nts xs) = isl (join_elems nts' xs)"
proof (induction nts v and nts xs rule: ToString_join_elems.induct)
  case (9 nts x xs)
  show ?case
  proof (cases "nullish x")
    case True
    with 9 show ?thesis
      by (cases "join_elems nts xs"; cases "join_elems nts' xs") simp_all
  next
    case False
    with 9 show ?thesis
      by (cases "ToString nts x"; cases "ToString nts' x";
          cases "join_elems nts xs"; cases "join_elems nts' xs") simp_all
  qed
qed simp_all

lemma log_message_ToString:
  "log_message v = Inr () \<longleftrightarrow> (\<exists>t. ToString nts v = Inr t)"
proof -
  have "log_message v = Inr () \<longleftrightarrow> \<not> isl (ToString (\<lambda>n. []) v)"
    by (cases "ToString (\<lambda>n. []) v") (simp_all add: log_message_def)
  also have "\<dots> \<longleftrightarrow> \<not> isl (ToString nts v)"
    using ToString_outcome(1) [of "\<lambda>n. []" v nts] by simp
  also have "\<dots> \<longleftrightarrow> (\<exists>t. ToString nts v = Inr t)"
    by (cases "ToString nts v") simp_all
  finally show ?thesis .
qed

lemma log_message_primitive [simp]:
  "log_message Undefined = Inr ()" "log_message Null = Inr ()"
  "log_message (Boolean b) = Inr ()" "log_message (Number n) = Inr ()"
  "log_message (Str t) = Inr ()"
  by (simp_all add: log_message_def)

lemma log_message_own_toString:
  "''toString'' \<in> fst ` set kvs \<Longrightarrow> log_message (Obj kvs) = Inl TypeError"
  by (simp add: log_message_def)

lemma addCard_state:
  assumes "storage_ok e" and "\<not> nullish cardData"
    and "c = Obj (define_props [] (card_literal e cardData @ spread_props cardData))"
  shows "snd (addCard e cardData s) =
      s\<lparr>cards := c # cards s, storage := Some (JSON_stringify (Arr (c # cards s)))\<rparr>"
    and "fst (addCard e cardData s) =
      (case log_message (field c ''name'') of Inl err \<Rightarrow> Inl err | Inr u \<Rightarrow> Inr c)"
  using assms
  by (simp_all add: addCard_def saveCards_def Let_def split: sum.splits)

lemma absent_field: "k \<notin> fst ` set kvs \<Longrightarrow> field (Obj kvs) k = Undefined"
  by (simp add: map_of_eq_None_iff [THEN iffD2])

lemma present_field:
  "distinct (map fst kvs) \<Longrightarrow> (k, v) \<in> set kvs \<Longrightarrow> field (Obj kvs) k = v"
  by simp

lemma field_card_absent:
  assumes "k \<notin> fst ` set kvs"
  shows "field (Obj (define_props [] (lit @ kvs))) k = field (Obj (define_props [] lit)) k"
  using assms by (simp add: define_props_append map_of_define_props_absent)

lemma field_card_present:
  assumes "distinct (map fst kvs)" and "(k, v) \<in> set kvs"
  shows "field (Obj (define_props [] (lit @ kvs))) k = v"
  using assms by (simp add: define_props_append map_of_define_props_present)

lemma define_card_literal:
  "define_props [] (card_literal e cardData) = card_literal e cardData"
  by (simp add: card_literal_def)

lemma field_literal:
  "field (Obj (card_literal e cd)) ''id'' = js_or (field cd ''id'') (Str (decimal (now_ms e)))"
  "field (Obj (card_literal e cd)) ''set'' = js_or (field cd ''set'') (Str ''Unknown Set'')"
  "field (Obj (card_literal e cd)) ''setNumber'' = js_or (field cd ''setNumber'') (Str ''Unknown'')"
  "field (Obj (card_literal e cd)) ''overallGrade'' = js_or (field cd ''overallGrade'') (Str ''N/A'')"
  "field (Obj (card_literal e cd)) ''subgrades'' = js_or (field cd ''subgrades'') (Obj [])"
  "field (Obj (card_literal e cd)) ''marketValue'' = js_or (field cd ''marketValue'') (Str ''N/A'')"
  "field (Obj (card_literal e cd)) ''scannedAt'' = js_or (field cd ''scannedAt'') (Str (now_iso e))"
  "field (Obj (card_literal e cd)) ''confidence'' = js_or (field cd ''confidence'') (Number (Fin 0))"
  "field (Obj (card_literal e cd)) ''notes'' = js_or (field cd ''notes'') (Str [])"
  "field (Obj (card_literal e cd)) ''tags'' = js_or (field cd ''tags'') (Arr [])"
  by (simp_all add: card_literal_def)

lemma field_literal_name:
  "field (Obj (card_literal e cd)) ''name'' = field cd ''name''"
  by (simp add: card_literal_def)

lemma field_literal_defaults:
  assumes "(k, d) \<in> set (defaults e)"
  shows "field (Obj (card_literal e cd)) k = js_or (field cd k) d"
proof -
  from assms have
    "k = ''id'' \<and> d = Str (decimal (now_ms e)) \<or> k = ''set'' \<and> d = Str ''Unknown Set''
     \<or> k = ''setNumber'' \<and> d = Str ''Unknown'' \<or> k = ''overallGrade'' \<and> d = Str ''N/A''
     \<or> k = ''subgrades'' \<and> d = Obj [] \<or> k = ''marketValue'' \<and> d = Str ''N/A''
     \<or> k = ''scannedAt'' \<and> d = Str (now_iso e) \<or> k = ''confidence'' \<and> d = Number (Fin 0)
     \<or> k = ''notes'' \<and> d = Str [] \<or> k = ''tags'' \<and> d = Arr []"
    unfolding defaults_def by simp
  then show ?thesis
    by (elim disjE conjE; simp only: field_literal)
qed

lemma defaults_not_name: "(k, d) \<in> set (defaults e) \<Longrightarrow> k \<noteq> ''name''"
  unfolding defaults_def by auto

lemma literal_depends_on_own_field:
  assumes "field cd k = field cd' k"
  shows "map_of (card_literal e cd) k = map_of (card_literal e cd') k"
  using assms unfolding card_literal_def
  by (simp; intro conjI impI; simp)

lemma default_when_absent:
  assumes "k \<notin> fst ` set kvs"
    and "field (Obj (card_literal e (Obj kvs))) k = js_or (field (Obj kvs) k) d"
  shows "field (Obj (define_props [] (card_literal e (Obj kvs) @ kvs))) k = d"
proof -
  have "field (Obj kvs) k = Undefined"
    using assms(1) by (rule absent_field)
  then have "field (Obj (card_literal e (Obj kvs))) k = d"
    using assms(2) by (simp add: js_or_def)
  then show ?thesis
    by (simp only: field_card_absent [OF assms(1)] define_card_literal)
qed

text \<open>
  A field of the entry: the value that the input has under the key, where it has the
  key, and the default otherwise.
\<close>

lemma entry_field:
  assumes "distinct (map fst kvs)"
    and "field (Obj (card_literal e (Obj kvs))) k = js_or (field (Obj kvs) k) d"
  shows "field (Obj (define_props [] (card_literal e (Obj kvs) @ kvs))) k
           = (if k \<in> fst ` set kvs then field (Obj kvs) k else d)"
proof (cases "k \<in> fst ` set kvs")
  case True
  then obtain v where v: "(k, v) \<in> set kvs" by auto
  have "field (Obj (define_props [] (card_literal e (Obj kvs) @ kvs))) k = v"
    using assms(1) v by (rule field_card_present)
  moreover have "field (Obj kvs) k = v"
    using assms(1) v by (rule present_field)
  ultimately show ?thesis
    using True by simp
next
  case False
  then show ?thesis
    using default_when_absent [OF False assms(2)] by simp
qed

lemma entry_name:
  assumes "distinct (map fst kvs)"
  shows "field (Obj (define_props [] (card_literal e (Obj kvs) @ kvs))) ''name''
           = field (Obj kvs) ''name''"
proof (cases "''name'' \<in> fst ` set kvs")
  case True
  then obtain v where v: "(''name'', v) \<in> set kvs" by auto
  show ?thesis
    using field_card_present [OF assms v] present_field [OF assms v] by simp
next
  case False
  have "field (Obj (define_props [] (card_literal e (Obj kvs) @ kvs))) ''name''
          = field (Obj (card_literal e (Obj kvs))) ''name''"
    by (simp only: field_card_absent [OF False] define_card_literal)
  then show ?thesis
    by (simp only: field_literal_name)
qed

lemma decimal_example: "decimal 1700000000123 = ''1700000000123''"
  by (simp add: decimal.simps digit_char_def)

text \<open>
  A field of the entry in general: the input's value where the input has the key, the
  field of the literal otherwise.
\<close>

lemma entry_field_cases:
  assumes "distinct (map fst kvs)"
  shows "field (Obj (define_props [] (lit @ kvs))) k
           = (if k \<in> fst ` set kvs then field (Obj kvs) k
              else field (Obj (define_props [] lit)) k)"
proof (cases "k \<in> fst ` set kvs")
  case True
  then obtain v where v: "(k, v) \<in> set kvs" by auto
  show ?thesis
    using True field_card_present [OF assms v, of lit] present_field [OF assms v] by simp
next
  case False
  then show ?thesis
    using field_card_absent [OF False, of lit] by simp
qed

lemma addCard_entry:
  assumes "storage_ok e" and "distinct (map fst kvs)"
    and "c = Obj (define_props [] (card_literal e (Obj kvs) @ kvs))"
  shows "snd (addCard e (Obj kvs) s) =
      s\<lparr>cards := c # cards s, storage := Some (JSON_stringify (Arr (c # cards s)))\<rparr>"
    and "fst (addCard e (Obj kvs) s) =
      (case log_message (field (Obj kvs) ''name'') of Inl err \<Rightarrow> Inl err | Inr u \<Rightarrow> Inr c)"
proof -
  have c: "c = Obj (define_props [] (card_literal e (Obj kvs) @ spread_props (Obj kvs)))"
    using assms(3) by simp
  have n: "\<not> nullish (Obj kvs)" by simp
  show "snd (addCard e (Obj kvs) s) =
      s\<lparr>cards := c # cards s, storage := Some (JSON_stringify (Arr (c # cards s)))\<rparr>"
    using assms(1) n c by (rule addCard_state(1))
  have "field c ''name'' = field (Obj kvs) ''name''"
    unfolding assms(3) using assms(2) by (rule entry_name)
  then show "fst (addCard e (Obj kvs) s) =
      (case log_message (field (Obj kvs) ''name'') of Inl err \<Rightarrow> Inl err | Inr u \<Rightarrow> Inr c)"
    using addCard_state(2) [OF assms(1) n c, of s] by simp
qed

text \<open>
  Claim C1. For every card object \<open>Obj kvs\<close>, and when the write to storage succeeds,
  \<open>addCard\<close> puts the entry it built in front of the entry list, stores the new list and
  returns the entry; it fails after that only where \<^verbatim>\<open>name\<close> is a value that cannot be
  converted to a string. Where the input does not have the key, \<^verbatim>\<open>id\<close> is the decimal digits
  of \<^verbatim>\<open>Date.now()\<close> and every optional field its default: \<^verbatim>\<open>set\<close> is \<^verbatim>\<open>"Unknown Set"\<close>,
  \<^verbatim>\<open>marketValue\<close> is \<^verbatim>\<open>"N/A"\<close>, \<^verbatim>\<open>confidence\<close> is \<^verbatim>\<open>0\<close>, \<^verbatim>\<open>tags\<close> is \<^verbatim>\<open>[]\<close>, \<^verbatim>\<open>notes\<close> is \<^verbatim>\<open>""\<close>, \<^verbatim>\<open>subgrades\<close> is
  \<^verbatim>\<open>{}\<close> (and \<^verbatim>\<open>setNumber\<close>, \<^verbatim>\<open>overallGrade\<close>, \<^verbatim>\<open>scannedAt\<close> likewise). Where the input has the key,
  the entry has the input's value, although the literal computed the default with \<^verbatim>\<open>||\<close>:
  the claim fails on a key whose value is \<^verbatim>\<open>undefined\<close>. For the object that the scan
  screen passes when the scan gave no set number and no confidence, the entry has
  \<^verbatim>\<open>setNumber\<close> and \<^verbatim>\<open>confidence\<close> \<^verbatim>\<open>undefined\<close>, not \<^verbatim>\<open>"Unknown"\<close> and \<^verbatim>\<open>0\<close>.
\<close>

theorem addCard_fills_defaults_and_prepends:
  assumes "storage_ok e" and "distinct (map fst kvs)"
  shows "\<exists>c. snd (addCard e (Obj kvs) s) =
           s\<lparr>cards := c # cards s, storage := Some (JSON_stringify (Arr (c # cards s)))\<rparr>
    \<and> fst (addCard e (Obj kvs) s) =
         (case log_message (field (Obj kvs) ''name'') of Inl err \<Rightarrow> Inl err | Inr u \<Rightarrow> Inr c)
    \<and> field c ''id'' = (if ''id'' \<in> fst ` set kvs then field (Obj kvs) ''id''
                         else Str (decimal (now_ms e)))
    \<and> field c ''set'' = (if ''set'' \<in> fst ` set kvs then field (Obj kvs) ''set''
                          else Str ''Unknown Set'')
    \<and> field c ''marketValue'' = (if ''marketValue'' \<in> fst ` set kvs
                          then field (Obj kvs) ''marketValue'' else Str ''N/A'')
    \<and> field c ''confidence'' = (if ''confidence'' \<in> fst ` set kvs
                          then field (Obj kvs) ''confidence'' else Number (Fin 0))
    \<and> field c ''tags'' = (if ''tags'' \<in> fst ` set kvs then field (Obj kvs) ''tags''
                           else Arr [])
    \<and> field c ''notes'' = (if ''notes'' \<in> fst ` set kvs then field (Obj kvs) ''notes''
                            else Str [])
    \<and> field c ''subgrades'' = (if ''subgrades'' \<in> fst ` set kvs
                          then field (Obj kvs) ''subgrades'' else Obj [])
    \<and> field c ''setNumber'' = (if ''setNumber'' \<in> fst ` set kvs
                          then field (Obj kvs) ''setNumber'' else Str ''Unknown'')
    \<and> field c ''overallGrade'' = (if ''overallGrade'' \<in> fst ` set kvs
                          then field (Obj kvs) ''overallGrade'' else Str ''N/A'')
    \<and> field c ''scannedAt'' = (if ''scannedAt'' \<in> fst ` set kvs
                          then field (Obj kvs) ''scannedAt'' else Str (now_iso e))
    \<and> (kvs = scanned_card \<longrightarrow>
          fst (addCard e (Obj kvs) s) = Inr c
        \<and> field c ''setNumber'' = Undefined \<and> field c ''confidence'' = Undefined)"
proof -
  define c where "c = Obj (define_props [] (card_literal e (Obj kvs) @ kvs))"
  note f = entry_field [OF assms(2), of e, folded c_def]
  have st: "snd (addCard e (Obj kvs) s) =
      s\<lparr>cards := c # cards s, storage := Some (JSON_stringify (Arr (c # cards s)))\<rparr>"
    using assms c_def by (rule addCard_entry(1))
  have res: "fst (addCard e (Obj kvs) s) =
      (case log_message (field (Obj kvs) ''name'') of Inl err \<Rightarrow> Inl err | Inr u \<Rightarrow> Inr c)"
    using assms c_def by (rule addCard_entry(2))
  have scan: "fst (addCard e (Obj kvs) s) = Inr c
        \<and> field c ''setNumber'' = Undefined \<and> field c ''confidence'' = Undefined"
    if k: "kvs = scanned_card"
  proof -
    have "field (Obj kvs) ''name'' = Str ''Pikachu''"
      by (simp add: k scanned_card_def)
    then have "fst (addCard e (Obj kvs) s) = Inr c"
      using res by simp
    moreover have "field c ''setNumber'' = Undefined"
      unfolding f [OF field_literal(3)] by (simp add: k scanned_card_def)
    moreover have "field c ''confidence'' = Undefined"
      unfolding f [OF field_literal(8)] by (simp add: k scanned_card_def)
    ultimately show ?thesis by (intro conjI)
  qed
  show ?thesis
    using st res f [OF field_literal(1)] f [OF field_literal(2)] f [OF field_literal(6)]
      f [OF field_literal(8)] f [OF field_literal(10)] f [OF field_literal(9)]
      f [OF field_literal(5)] f [OF field_literal(3)] f [OF field_literal(4)]
      f [OF field_literal(7)] scan [THEN impI [of "kvs = scanned_card"]]
    by (intro exI [of _ c] conjI)
qed

theorem addCard_fills_defaults_and_prepends_witness:
  "\<exists>c. snd (addCard \<lparr>now_ms = 1700000000999, now_iso = ''2023-11-14T22:13:21.000Z'',
                      storage_ok = True\<rparr> (Obj scanned_card)
               \<lparr>cards = [Obj [(''id'', Str ''7'')]], isLoading = False, storage = None\<rparr>)
        = \<lparr>cards = [c, Obj [(''id'', Str ''7'')]], isLoading = False,
           storage = Some (JSON_stringify (Arr [c, Obj [(''id'', Str ''7'')]]))\<rparr>
    \<and> fst (addCard \<lparr>now_ms = 1700000000999, now_iso = ''2023-11-14T22:13:21.000Z'',
                      storage_ok = True\<rparr> (Obj scanned_card)
               \<lparr>cards = [Obj [(''id'', Str ''7'')]], isLoading = False, storage = None\<rparr>)
        = Inr c
    \<and> field c ''id'' = Str ''1700000000123''
    \<and> field c ''set'' = Str ''Base Set''
    \<and> field c ''tags'' = Arr []
    \<and> field c ''notes'' = Str []
    \<and> field c ''setNumber'' = Undefined
    \<and> field c ''confidence'' = Undefined"
proof -
  let ?e = "\<lparr>now_ms = 1700000000999, now_iso = ''2023-11-14T22:13:21.000Z'', storage_ok = True\<rparr>"
  let ?s = "\<lparr>cards = [Obj [(''id'', Str ''7'')]], isLoading = False, storage = None\<rparr>"
  have a: "storage_ok ?e" by simp
  have d: "distinct (map fst scanned_card)" by (simp add: scanned_card_def)
  have k: "''id'' \<in> fst ` set scanned_card" "''set'' \<in> fst ` set scanned_card"
      "''tags'' \<notin> fst ` set scanned_card" "''notes'' \<notin> fst ` set scanned_card"
    by (simp_all add: scanned_card_def)
  have v: "field (Obj scanned_card) ''id'' = Str ''1700000000123''"
      "field (Obj scanned_card) ''set'' = Str ''Base Set''"
    by (simp_all add: scanned_card_def)
  from addCard_fills_defaults_and_prepends [OF a d, of ?s]
  obtain c where c:
      "snd (addCard ?e (Obj scanned_card) ?s) =
         ?s\<lparr>cards := c # cards ?s, storage := Some (JSON_stringify (Arr (c # cards ?s)))\<rparr>"
      "field c ''id'' = (if ''id'' \<in> fst ` set scanned_card
                          then field (Obj scanned_card) ''id'' else Str (decimal (now_ms ?e)))"
      "field c ''set'' = (if ''set'' \<in> fst ` set scanned_card
                          then field (Obj scanned_card) ''set'' else Str ''Unknown Set'')"
      "field c ''tags'' = (if ''tags'' \<in> fst ` set scanned_card
                          then field (Obj scanned_card) ''tags'' else Arr [])"
      "field c ''notes'' = (if ''notes'' \<in> fst ` set scanned_card
                          then field (Obj scanned_card) ''notes'' else Str [])"
      "scanned_card = scanned_card \<longrightarrow>
          fst (addCard ?e (Obj scanned_card) ?s) = Inr c
        \<and> field c ''setNumber'' = Undefined \<and> field c ''confidence'' = Undefined"
    by blast
  have "snd (addCard ?e (Obj scanned_card) ?s)
        = \<lparr>cards = [c, Obj [(''id'', Str ''7'')]], isLoading = False,
           storage = Some (JSON_stringify (Arr [c, Obj [(''id'', Str ''7'')]]))\<rparr>"
    using c(1) by simp
  moreover have "field c ''id'' = Str ''1700000000123''"
    using c(2) k(1) v(1) by simp
  moreover have "field c ''set'' = Str ''Base Set''"
    using c(3) k(2) v(2) by simp
  moreover have "field c ''tags'' = Arr []"
    using c(4) k(3) by simp
  moreover have "field c ''notes'' = Str []"
    using c(5) k(4) by simp
  ultimately show ?thesis
    using c(6) by (intro exI [of _ c]) simp
qed

text \<open>
  Claim C9. The literal of \<open>addCard\<close> computes the defaults and \<^verbatim>\<open>...cardData\<close> is spread
  over them last. So for every key \<open>k\<close> that the input has, the entry has the input's value
  under \<open>k\<close>, \<^verbatim>\<open>undefined\<close> included; and where \<open>k\<close> has a default, the same input without the
  key gives an entry with the default under \<open>k\<close> and the same value under every other
  key. A key \<^verbatim>\<open>set\<close> whose value is \<^verbatim>\<open>undefined\<close> gives an entry whose \<^verbatim>\<open>set\<close> is \<^verbatim>\<open>undefined\<close>,
  not \<^verbatim>\<open>"Unknown Set"\<close>, and \<^verbatim>\<open>tags: undefined\<close> gives \<^verbatim>\<open>tags\<close> \<^verbatim>\<open>undefined\<close>, not \<^verbatim>\<open>[]\<close>. (The write
  to storage succeeds and \<^verbatim>\<open>name\<close> can be converted to a string.)
\<close>

theorem addCard_spread_overrides_defaults:
  assumes "storage_ok e" and "distinct (map fst kvs)"
    and "log_message (field (Obj kvs) ''name'') = Inr ()"
    and "(k, v) \<in> set kvs"
  shows "\<exists>c.
      addCard e (Obj kvs) s =
        (Inr c, s\<lparr>cards := c # cards s,
                   storage := Some (JSON_stringify (Arr (c # cards s)))\<rparr>)
    \<and> field c k = v
    \<and> (\<forall>d. (k, d) \<in> set (defaults e) \<longrightarrow>
          (\<exists>c'. addCard e (Obj (AList.delete k kvs)) s =
                  (Inr c', s\<lparr>cards := c' # cards s,
                              storage := Some (JSON_stringify (Arr (c' # cards s)))\<rparr>)
              \<and> field c' k = d
              \<and> (\<forall>k'. k' \<noteq> k \<longrightarrow> field c' k' = field c k')))"
proof -
  let ?kvs' = "AList.delete k kvs"
  define c where "c = Obj (define_props [] (card_literal e (Obj kvs) @ kvs))"
  define c' where "c' = Obj (define_props [] (card_literal e (Obj ?kvs') @ ?kvs'))"
  have d': "distinct (map fst ?kvs')"
    using assms(2) by (rule AList.distinct_delete)
  have absent: "k \<notin> fst ` set ?kvs'"
    by (simp add: AList.delete_keys flip: set_map)
  have other: "field (Obj ?kvs') k' = field (Obj kvs) k'" if "k' \<noteq> k" for k'
    using that by (simp add: AList.delete_conv')
  have r: "addCard e (Obj kvs) s =
        (Inr c, s\<lparr>cards := c # cards s,
                   storage := Some (JSON_stringify (Arr (c # cards s)))\<rparr>)"
    using addCard_entry [OF assms(1,2) c_def, of s] assms(3)
    by (simp add: prod_eq_iff)
  have v: "field c k = v"
    unfolding c_def using assms(2,4) by (rule field_card_present)
  have same: "field c' k' = field c k'" if k': "k' \<noteq> k" for k'
  proof -
    have in_keys: "k' \<in> fst ` set ?kvs' \<longleftrightarrow> k' \<in> fst ` set kvs"
      using k' by (simp add: AList.delete_keys flip: set_map)
    have "map_of (card_literal e (Obj ?kvs')) k' = map_of (card_literal e (Obj kvs)) k'"
      using other [OF k'] by (rule literal_depends_on_own_field)
    then have lit: "field (Obj (define_props [] (card_literal e (Obj ?kvs')))) k'
        = field (Obj (define_props [] (card_literal e (Obj kvs)))) k'"
      by (simp add: define_card_literal)
    show ?thesis
      unfolding c_def c'_def entry_field_cases [OF assms(2)] entry_field_cases [OF d']
      using in_keys other [OF k'] lit by simp
  qed
  have without: "addCard e (Obj ?kvs') s =
                  (Inr c', s\<lparr>cards := c' # cards s,
                              storage := Some (JSON_stringify (Arr (c' # cards s)))\<rparr>)
              \<and> field c' k = d
              \<and> (\<forall>k'. k' \<noteq> k \<longrightarrow> field c' k' = field c k')"
    if d: "(k, d) \<in> set (defaults e)" for d
  proof -
    have name: "field (Obj ?kvs') ''name'' = field (Obj kvs) ''name''"
      using defaults_not_name [OF d] by (intro other) simp
    have r': "addCard e (Obj ?kvs') s =
        (Inr c', s\<lparr>cards := c' # cards s,
                    storage := Some (JSON_stringify (Arr (c' # cards s)))\<rparr>)"
      using addCard_entry [OF assms(1) d' c'_def, of s] assms(3) name
      by (simp add: prod_eq_iff)
    have "field c' k = d"
      unfolding c'_def using absent field_literal_defaults [OF d]
      by (rule default_when_absent)
    then show ?thesis
      using r' same by blast
  qed
  show ?thesis
    using r v without by blast
qed

theorem addCard_spread_overrides_defaults_witness:
  "\<exists>c c'.
      addCard \<lparr>now_ms = 5, now_iso = ''2023-11-14T22:13:20.123Z'', storage_ok = True\<rparr>
          (Obj [(''name'', Str ''Pikachu''), (''set'', Undefined), (''tags'', Undefined)])
          \<lparr>cards = [], isLoading = False, storage = None\<rparr>
        = (Inr c, \<lparr>cards = [c], isLoading = False,
                    storage = Some (JSON_stringify (Arr [c]))\<rparr>)
    \<and> field c ''set'' = Undefined \<and> field c ''tags'' = Undefined
    \<and> field c ''name'' = Str ''Pikachu''
    \<and> addCard \<lparr>now_ms = 5, now_iso = ''2023-11-14T22:13:20.123Z'', storage_ok = True\<rparr>
          (Obj [(''name'', Str ''Pikachu''), (''tags'', Undefined)])
          \<lparr>cards = [], isLoading = False, storage = None\<rparr>
        = (Inr c', \<lparr>cards = [c'], isLoading = False,
                     storage = Some (JSON_stringify (Arr [c']))\<rparr>)
    \<and> field c' ''set'' = Str ''Unknown Set'' \<and> field c' ''tags'' = Undefined
    \<and> field c' ''name'' = Str ''Pikachu''"
proof -
  let ?e = "\<lparr>now_ms = 5, now_iso = ''2023-11-14T22:13:20.123Z'', storage_ok = True\<rparr>"
  let ?kvs = "[(''name'', Str ''Pikachu''), (''set'', Undefined), (''tags'', Undefined)]"
  let ?s = "\<lparr>cards = [], isLoading = False, storage = None\<rparr>"
  have a: "storage_ok ?e" by simp
  have d: "distinct (map fst ?kvs)" by simp
  have n: "log_message (field (Obj ?kvs) ''name'') = Inr ()" by simp
  have m: "(''set'', Undefined) \<in> set ?kvs" "(''tags'', Undefined) \<in> set ?kvs"
      "(''name'', Str ''Pikachu'') \<in> set ?kvs"
    by simp_all
  have df: "(''set'', Str ''Unknown Set'') \<in> set (defaults ?e)" by (simp add: defaults_def)
  have del: "AList.delete ''set'' ?kvs = [(''name'', Str ''Pikachu''), (''tags'', Undefined)]"
    by simp
  from addCard_spread_overrides_defaults [OF a d n m(1), of ?s]
  obtain c where c:
      "addCard ?e (Obj ?kvs) ?s =
        (Inr c, ?s\<lparr>cards := c # cards ?s,
                   storage := Some (JSON_stringify (Arr (c # cards ?s)))\<rparr>)"
      "field c ''set'' = Undefined"
      "\<forall>d. (''set'', d) \<in> set (defaults ?e) \<longrightarrow>
          (\<exists>c'. addCard ?e (Obj (AList.delete ''set'' ?kvs)) ?s =
                  (Inr c', ?s\<lparr>cards := c' # cards ?s,
                            storage := Some (JSON_stringify (Arr (c' # cards ?s)))\<rparr>)
              \<and> field c' ''set'' = d
              \<and> (\<forall>k'. k' \<noteq> ''set'' \<longrightarrow> field c' k' = field c k'))"
    by blast
  from c(3) df obtain c' where c':
      "addCard ?e (Obj (AList.delete ''set'' ?kvs)) ?s =
        (Inr c', ?s\<lparr>cards := c' # cards ?s,
                    storage := Some (JSON_stringify (Arr (c' # cards ?s)))\<rparr>)"
      "field c' ''set'' = Str ''Unknown Set''"
      "\<forall>k'. k' \<noteq> ''set'' \<longrightarrow> field c' k' = field c k'"
    by blast
  have t: "field c ''tags'' = Undefined"
    using addCard_spread_overrides_defaults [OF a d n m(2), of ?s] c(1) by auto
  have nm: "field c ''name'' = Str ''Pikachu''"
    using addCard_spread_overrides_defaults [OF a d n m(3), of ?s] c(1) by auto
  have "field c' ''tags'' = Undefined" "field c' ''name'' = Str ''Pikachu''"
    using c'(3) t nm by simp_all
  then show ?thesis
    using c(1,2) c'(1,2) t nm unfolding del
    by (intro exI [of _ c] exI [of _ c']) simp
qed

section \<open>Persistence\<close>

lemma saveCards_fails:
  "\<not> storage_ok e \<Longrightarrow> saveCards e newCards s = (Inl StorageError, s)"
  by (simp add: saveCards_def)

lemma saveCards_ok:
  "storage_ok e \<Longrightarrow>
     saveCards e newCards s = (Inr (), s\<lparr>storage := Some (JSON_stringify (Arr newCards))\<rparr>)"
  by (simp add: saveCards_def)

lemma loadCards_absent_key:
  "storage s = None \<Longrightarrow> loadCards e s = Some (s\<lparr>cards := [], isLoading := False\<rparr>)"
  by (simp add: loadCards_def)

lemma loadCards_getItem_rejects:
  "\<not> storage_ok e \<Longrightarrow> loadCards e s = Some (s\<lparr>cards := [], isLoading := False\<rparr>)"
  by (simp add: loadCards_def)

lemma loadCards_parse_fails:
  "storage s = Some NotJSON \<Longrightarrow> loadCards e s = Some (s\<lparr>cards := [], isLoading := False\<rparr>)"
  by (simp add: loadCards_def JSON_parse_def)

lemma addCard_save_fails:
  "\<not> storage_ok e \<Longrightarrow> \<not> nullish cardData \<Longrightarrow> fst (addCard e cardData s) = Inl StorageError"
  by (simp add: addCard_def Let_def saveCards_fails)

lemma updateCard_save_fails:
  "\<not> storage_ok e \<Longrightarrow> \<not> list_ex nullish (cards s) \<Longrightarrow>
     fst (updateCard e cardId updates s) = Inl StorageError"
  by (simp add: updateCard_def Let_def saveCards_fails)

lemma deleteCard_save_fails:
  "\<not> storage_ok e \<Longrightarrow> \<not> list_ex nullish (cards s) \<Longrightarrow>
     fst (deleteCard e cardId s) = Inl StorageError"
  by (simp add: deleteCard_def Let_def saveCards_fails)

text \<open>
  Claim C6. \<open>loadCards\<close> ends with an empty entry list and raises nothing when the
  storage key is absent, when \<^verbatim>\<open>getItem\<close> rejects, and when the stored text does not parse.
  When the write to storage fails, \<open>saveCards\<close> returns the error, and so do \<open>addCard\<close>,
  \<open>updateCard\<close> and \<open>deleteCard\<close> (on a card object, respectively on a vault without \<^verbatim>\<open>null\<close>
  entries, where nothing throws before the save).
\<close>

theorem persistence_contract:
  shows "(storage s = None \<or> \<not> storage_ok e \<or> storage s = Some NotJSON \<longrightarrow>
           loadCards e s = Some (s\<lparr>cards := [], isLoading := False\<rparr>))
    \<and> (\<not> storage_ok e \<longrightarrow> fst (saveCards e newCards s) = Inl StorageError)
    \<and> (\<not> storage_ok e \<and> \<not> nullish cardData \<longrightarrow> fst (addCard e cardData s) = Inl StorageError)
    \<and> (\<not> storage_ok e \<and> \<not> list_ex nullish (cards s) \<longrightarrow>
           fst (updateCard e cardId updates s) = Inl StorageError)
    \<and> (\<not> storage_ok e \<and> \<not> list_ex nullish (cards s) \<longrightarrow>
           fst (deleteCard e cardId s) = Inl StorageError)"
  using loadCards_absent_key loadCards_getItem_rejects loadCards_parse_fails
    addCard_save_fails updateCard_save_fails deleteCard_save_fails saveCards_fails
  by (metis fst_conv)

theorem persistence_contract_witness:
  "loadCards \<lparr>now_ms = 5, now_iso = ''2024-01-01T00:00:00.000Z'', storage_ok = True\<rparr>
       \<lparr>cards = [Obj [(''id'', Str ''1'')]], isLoading = True, storage = None\<rparr>
     = Some \<lparr>cards = [], isLoading = False, storage = None\<rparr>
   \<and> loadCards \<lparr>now_ms = 5, now_iso = ''2024-01-01T00:00:00.000Z'', storage_ok = False\<rparr>
       \<lparr>cards = [Obj [(''id'', Str ''1'')]], isLoading = True,
          storage = Some (JSONText (JArr [JObj [(''id'', JStr ''1'')]]))\<rparr>
     = Some \<lparr>cards = [], isLoading = False,
          storage = Some (JSONText (JArr [JObj [(''id'', JStr ''1'')]]))\<rparr>
   \<and> fst (addCard \<lparr>now_ms = 5, now_iso = ''2024-01-01T00:00:00.000Z'', storage_ok = False\<rparr>
         (Obj [(''name'', Str ''Pikachu'')])
         \<lparr>cards = [Obj [(''id'', Str ''1'')]], isLoading = True,
          storage = Some (JSONText (JArr [JObj [(''id'', JStr ''1'')]]))\<rparr>) = Inl StorageError
   \<and> fst (updateCard \<lparr>now_ms = 5, now_iso = ''2024-01-01T00:00:00.000Z'', storage_ok = False\<rparr>
         (Str ''1'') (Obj [(''notes'', Str ''mint'')])
         \<lparr>cards = [Obj [(''id'', Str ''1'')]], isLoading = True,
          storage = Some (JSONText (JArr [JObj [(''id'', JStr ''1'')]]))\<rparr>) = Inl StorageError
   \<and> fst (deleteCard \<lparr>now_ms = 5, now_iso = ''2024-01-01T00:00:00.000Z'', storage_ok = False\<rparr>
         (Str ''1'')
         \<lparr>cards = [Obj [(''id'', Str ''1'')]], isLoading = True,
          storage = Some (JSONText (JArr [JObj [(''id'', JStr ''1'')]]))\<rparr>) = Inl StorageError"
  using persistence_contract
     [of "\<lparr>cards = [Obj [(''id'', Str ''1'')]], isLoading = True, storage = None\<rparr>"
         "\<lparr>now_ms = 5, now_iso = ''2024-01-01T00:00:00.000Z'', storage_ok = True\<rparr>"]
    persistence_contract
     [of "\<lparr>cards = [Obj [(''id'', Str ''1'')]], isLoading = True,
          storage = Some (JSONText (JArr [JObj [(''id'', JStr ''1'')]]))\<rparr>"
         "\<lparr>now_ms = 5, now_iso = ''2024-01-01T00:00:00.000Z'', storage_ok = False\<rparr>"
         _ "Obj [(''name'', Str ''Pikachu'')]" "Str ''1''" "Obj [(''notes'', Str ''mint'')]"]
  by simp

section \<open>Import\<close>

lemma importVault_rejects_invalid_format:
  assumes "JSON_parse jsonData = Inr importData" and "\<not> nullish importData"
    and "\<not> isArray (field importData ''cards'')"
  shows "importVault e jsonData merge s = (Inl (Error ''Invalid import data format''), s)"
  using assms by (simp add: importVault_def get_prop_def)

lemma importVault_rejects_unparsable:
  "importVault e NotJSON merge s = (Inl SyntaxError, s)"
  by (simp add: importVault_def JSON_parse_def)

text \<open>
  Claim C5. A payload that parses, is not \<^verbatim>\<open>null\<close>, and has no array under \<^verbatim>\<open>cards\<close> is
  rejected with \<^verbatim>\<open>Error('Invalid import data format')\<close> and the state is untouched
  (\<open>importVault_rejects_invalid_format\<close>). The JSON text \<^verbatim>\<open>null\<close> also lacks a \<^verbatim>\<open>cards\<close> field, but
  there \<^verbatim>\<open>importData.cards\<close> throws a \<^verbatim>\<open>TypeError\<close> before the format check is reached: the import
  is rejected and the state untouched, with another error than the one of the format check.
\<close>

theorem importVault_null_payload:
  "importVault e (JSONText JNull) merge s = (Inl TypeError, s)
     \<and> fst (importVault e (JSONText JNull) merge s) \<noteq> Inl (Error ''Invalid import data format'')"
  by (simp add: importVault_def JSON_parse_def get_prop_def)

theorem importVault_null_payload_witness:
  "importVault \<lparr>now_ms = 5, now_iso = ''2024-01-01T00:00:00.000Z'', storage_ok = True\<rparr>
     (JSONText JNull) False
     \<lparr>cards = [Obj [(''id'', Str ''1'')]], isLoading = False, storage = None\<rparr>
   = (Inl TypeError,
      \<lparr>cards = [Obj [(''id'', Str ''1'')]], isLoading = False, storage = None\<rparr>)"
  by (rule importVault_null_payload [THEN conjunct1])

lemma importVault_merge_result:
  assumes "storage_ok e" and "JSON_parse jsonData = Inr importData"
    and "field importData ''cards'' = Arr xs"
    and "\<not> list_ex nullish (cards s)" and "\<not> list_ex nullish xs"
    and "newCards = cards s @ filter (\<lambda>c. \<not> (\<exists>x \<in> set (cards s).
            same_value_zero (field c ''id'') (field x ''id''))) xs"
  shows "importVault e jsonData True s =
           (Inr \<lparr>imported = length xs, total = length newCards\<rparr>,
            s\<lparr>cards := newCards, storage := Some (JSON_stringify (Arr newCards))\<rparr>)"
proof -
  have "\<not> nullish importData"
    using assms(3) by (cases importData) simp_all
  then have g: "get_prop importData ''cards'' = Inr (Arr xs)"
    using assms(3) by (simp add: get_prop_def)
  have m: "merge_cards (cards s) xs = Inr newCards"
    using assms(4,5,6) by (simp add: merge_cards_def Let_def list_ex_iff)
  show ?thesis
    using assms(1,2) g m by (simp add: importVault_def saveCards_ok)
qed

text \<open>
  Claim C3. For every vault and every payload whose \<^verbatim>\<open>cards\<close> is a list (no card on
  either side being \<^verbatim>\<open>null\<close> or \<^verbatim>\<open>undefined\<close>, and the write to storage succeeding), a merging
  import returns its counts and the new entry list is the old one followed by the imported
  cards whose id the vault does not hold, in import order. If every imported id is in the
  vault the list and its length stay as they were; if none is, the length grows by the
  number of imported cards.
\<close>

theorem importVault_merge_appends_new_ids:
  assumes "storage_ok e" and "JSON_parse jsonData = Inr importData"
    and "field importData ''cards'' = Arr xs"
    and "\<not> list_ex nullish (cards s)" and "\<not> list_ex nullish xs"
  shows "\<exists>r s'. importVault e jsonData True s = (Inr r, s')
    \<and> cards s' = cards s @ filter (\<lambda>c. \<not> (\<exists>x \<in> set (cards s).
            same_value_zero (field c ''id'') (field x ''id''))) xs
    \<and> total r = length (cards s')
    \<and> ((\<forall>c \<in> set xs. \<exists>x \<in> set (cards s). same_value_zero (field c ''id'') (field x ''id''))
          \<longrightarrow> cards s' = cards s \<and> total r = length (cards s))
    \<and> ((\<forall>c \<in> set xs. \<forall>x \<in> set (cards s). \<not> same_value_zero (field c ''id'') (field x ''id''))
          \<longrightarrow> cards s' = cards s @ xs \<and> total r = length (cards s) + length xs)"
proof -
  define keep where "keep = filter (\<lambda>c. \<not> (\<exists>x \<in> set (cards s).
            same_value_zero (field c ''id'') (field x ''id''))) xs"
  have res: "importVault e jsonData True s =
           (Inr \<lparr>imported = length xs, total = length (cards s @ keep)\<rparr>,
            s\<lparr>cards := cards s @ keep, storage := Some (JSON_stringify (Arr (cards s @ keep)))\<rparr>)"
    using assms by (intro importVault_merge_result) (simp_all add: keep_def)
  have dup: "keep = []"
    if "\<forall>c \<in> set xs. \<exists>x \<in> set (cards s). same_value_zero (field c ''id'') (field x ''id'')"
    using that by (simp add: keep_def filter_empty_conv)
  have new: "keep = xs"
    if "\<forall>c \<in> set xs. \<forall>x \<in> set (cards s). \<not> same_value_zero (field c ''id'') (field x ''id'')"
    using that by (simp add: keep_def filter_id_conv)
  show ?thesis
    unfolding keep_def [symmetric] using res dup new by auto
qed

theorem importVault_merge_appends_new_ids_witness:
  "(\<exists>r s'. importVault \<lparr>now_ms = 5, now_iso = ''2024-01-01T00:00:00.000Z'', storage_ok = True\<rparr>
        (JSONText (JObj [(''version'', JStr ''1.0''),
           (''cards'', JArr [JObj [(''id'', JStr ''2'')], JObj [(''id'', JStr ''3'')]])])) True
        \<lparr>cards = [Obj [(''id'', Str ''1'')], Obj [(''id'', Str ''2'')]], isLoading = False,
           storage = None\<rparr> = (Inr r, s')
      \<and> cards s' = [Obj [(''id'', Str ''1'')], Obj [(''id'', Str ''2'')], Obj [(''id'', Str ''3'')]]
      \<and> total r = 3)
   \<and> (\<exists>r s'. importVault \<lparr>now_ms = 5, now_iso = ''2024-01-01T00:00:00.000Z'', storage_ok = True\<rparr>
        (JSONText (JObj [(''cards'', JArr [JObj [(''id'', JStr ''2'')], JObj [(''id'', JStr ''1'')]])])) True
        \<lparr>cards = [Obj [(''id'', Str ''1'')], Obj [(''id'', Str ''2'')]], isLoading = False,
           storage = None\<rparr> = (Inr r, s')
      \<and> cards s' = [Obj [(''id'', Str ''1'')], Obj [(''id'', Str ''2'')]]
      \<and> total r = 2)
   \<and> (\<exists>r s'. importVault \<lparr>now_ms = 5, now_iso = ''2024-01-01T00:00:00.000Z'', storage_ok = True\<rparr>
        (JSONText (JObj [(''cards'', JArr [JObj [(''id'', JStr ''4'')], JObj [(''id'', JStr ''3'')]])])) True
        \<lparr>cards = [Obj [(''id'', Str ''1'')], Obj [(''id'', Str ''2'')]], isLoading = False,
           storage = None\<rparr> = (Inr r, s')
      \<and> cards s' = [Obj [(''id'', Str ''1'')], Obj [(''id'', Str ''2'')],
                     Obj [(''id'', Str ''4'')], Obj [(''id'', Str ''3'')]]
      \<and> total r = 4)"
proof -
  let ?e = "\<lparr>now_ms = 5, now_iso = ''2024-01-01T00:00:00.000Z'', storage_ok = True\<rparr>"
  let ?s = "\<lparr>cards = [Obj [(''id'', Str ''1'')], Obj [(''id'', Str ''2'')]], isLoading = False,
           storage = None\<rparr>"
  have ok: "storage_ok ?e" and nn: "\<not> list_ex nullish (cards ?s)"
    by simp_all
  have a: "JSON_parse (JSONText (JObj [(''version'', JStr ''1.0''),
           (''cards'', JArr [JObj [(''id'', JStr ''2'')], JObj [(''id'', JStr ''3'')]])]))
      = Inr (Obj [(''version'', Str ''1.0''),
           (''cards'', Arr [Obj [(''id'', Str ''2'')], Obj [(''id'', Str ''3'')]])])"
    by (simp add: JSON_parse_def)
  have b: "JSON_parse (JSONText (JObj
           [(''cards'', JArr [JObj [(''id'', JStr ''2'')], JObj [(''id'', JStr ''1'')]])]))
      = Inr (Obj [(''cards'', Arr [Obj [(''id'', Str ''2'')], Obj [(''id'', Str ''1'')]])])"
    by (simp add: JSON_parse_def)
  have c: "JSON_parse (JSONText (JObj
           [(''cards'', JArr [JObj [(''id'', JStr ''4'')], JObj [(''id'', JStr ''3'')]])]))
      = Inr (Obj [(''cards'', Arr [Obj [(''id'', Str ''4'')], Obj [(''id'', Str ''3'')]])])"
    by (simp add: JSON_parse_def)
  show ?thesis
    using importVault_merge_appends_new_ids [OF ok a _ nn, of "[Obj [(''id'', Str ''2'')], Obj [(''id'', Str ''3'')]]"]
      importVault_merge_appends_new_ids [OF ok b _ nn, of "[Obj [(''id'', Str ''2'')], Obj [(''id'', Str ''1'')]]"]
      importVault_merge_appends_new_ids [OF ok c _ nn, of "[Obj [(''id'', Str ''4'')], Obj [(''id'', Str ''3'')]]"]
    by simp force
qed

text \<open>
  Claim C10. In the counts that a merging import returns, \<open>imported\<close> is the length of
  the whole \<^verbatim>\<open>cards\<close> array of the payload: the cards appended plus the duplicates dropped.
  \<open>total\<close> is the length of the merged list.
\<close>

theorem importVault_merge_counts_whole_payload:
  assumes "storage_ok e" and "JSON_parse jsonData = Inr importData"
    and "field importData ''cards'' = Arr xs"
    and "\<not> list_ex nullish (cards s)" and "\<not> list_ex nullish xs"
  shows "\<exists>r s'. importVault e jsonData True s = (Inr r, s')
    \<and> imported r = length xs
    \<and> total r = length (cards s')
    \<and> imported r = (total r - length (cards s))
         + length (filter (\<lambda>c. \<exists>x \<in> set (cards s).
               same_value_zero (field c ''id'') (field x ''id'')) xs)"
proof -
  define dup where "dup = (\<lambda>c. \<exists>x \<in> set (cards s).
            same_value_zero (field c ''id'') (field x ''id''))"
  define newCards where "newCards = cards s @ filter (\<lambda>c. \<not> dup c) xs"
  have res: "importVault e jsonData True s =
           (Inr \<lparr>imported = length xs, total = length newCards\<rparr>,
            s\<lparr>cards := newCards, storage := Some (JSON_stringify (Arr newCards))\<rparr>)"
    using assms by (intro importVault_merge_result) (simp_all add: newCards_def dup_def)
  have "length xs = length (filter (\<lambda>c. \<not> dup c) xs) + length (filter dup xs)"
    using sum_length_filter_compl [of dup xs] by simp
  then have "length xs = (length newCards - length (cards s)) + length (filter dup xs)"
    by (simp add: newCards_def)
  then show ?thesis
    unfolding dup_def [symmetric] using res by simp
qed

theorem importVault_merge_counts_whole_payload_witness:
  "\<exists>r s'. importVault \<lparr>now_ms = 5, now_iso = ''2024-01-01T00:00:00.000Z'', storage_ok = True\<rparr>
        (JSONText (JObj [(''version'', JStr ''1.0''),
           (''cards'', JArr [JObj [(''id'', JStr ''2'')], JObj [(''id'', JStr ''3'')]])])) True
        \<lparr>cards = [Obj [(''id'', Str ''1'')], Obj [(''id'', Str ''2'')]], isLoading = False,
           storage = None\<rparr> = (Inr r, s')
      \<and> imported r = 2 \<and> total r = 3 \<and> length (cards s') = 3"
proof -
  let ?e = "\<lparr>now_ms = 5, now_iso = ''2024-01-01T00:00:00.000Z'', storage_ok = True\<rparr>"
  let ?s = "\<lparr>cards = [Obj [(''id'', Str ''1'')], Obj [(''id'', Str ''2'')]], isLoading = False,
           storage = None\<rparr>"
  have ok: "storage_ok ?e" and nn: "\<not> list_ex nullish (cards ?s)"
    by simp_all
  have a: "JSON_parse (JSONText (JObj [(''version'', JStr ''1.0''),
           (''cards'', JArr [JObj [(''id'', JStr ''2'')], JObj [(''id'', JStr ''3'')]])]))
      = Inr (Obj [(''version'', Str ''1.0''),
           (''cards'', Arr [Obj [(''id'', Str ''2'')], Obj [(''id'', Str ''3'')]])])"
    by (simp add: JSON_parse_def)
  show ?thesis
    using importVault_merge_counts_whole_payload [OF ok a _ nn, of "[Obj [(''id'', Str ''2'')], Obj [(''id'', Str ''3'')]]"]
    by simp force
qed

section \<open>Export followed by import\<close>

lemma update_fresh: "k \<notin> fst ` set al \<Longrightarrow> AList.update k v al = al @ [(k, v)]"
  by (induction al) auto

lemma json_round_trip:
  "json_data v \<Longrightarrow> (\<exists>j. to_json v = Some j \<and> of_json j = v)"
  "json_data_elems xs \<Longrightarrow> of_json_elems (to_json_elems xs) = xs"
  "json_data_props kvs \<Longrightarrow> distinct (map fst (acc @ kvs)) \<Longrightarrow>
     of_json_props acc (to_json_props kvs) = acc @ kvs"
proof (induction v and xs and kvs arbitrary: and and acc
    rule: to_json_to_json_elems_to_json_props.induct)
  case (4 n)
  then show ?case by (cases n) simp_all
next
  case (7 kvs)
  then show ?case by (simp add: "7.IH" [of "[]", simplified])
next
  case (9 x xs)
  then show ?case by auto
next
  case (11 k v kvs)
  from "11.prems" obtain j where j: "to_json v = Some j" "of_json j = v"
    using "11.IH"(1) by auto
  have fresh: "k \<notin> fst ` set acc"
    using "11.prems"(2) by auto
  have d: "distinct (map fst ((acc @ [(k, v)]) @ kvs))"
    using "11.prems"(2) by simp
  have "of_json_props (acc @ [(k, v)]) (to_json_props kvs) = (acc @ [(k, v)]) @ kvs"
    using "11.IH"(3) [OF j(1) _ d] "11.prems"(1) by simp
  then show ?case
    using j fresh by (simp add: update_fresh)
qed simp_all

lemma fields_round_trip:
  "json_fields kvs \<Longrightarrow> distinct (map fst (acc @ kvs)) \<Longrightarrow>
     of_json_props acc (to_json_props kvs) = acc @ filter (\<lambda>kv. snd kv \<noteq> Undefined) kvs"
proof (induction kvs arbitrary: acc rule: json_fields.induct)
  case 1
  show ?case by simp
next
  case (2 k v kvs)
  show ?case
  proof (cases "v = Undefined")
    case True
    then show ?thesis
      using "2.prems" "2.IH" [of acc] by simp
  next
    case False
    then obtain j where j: "to_json v = Some j" "of_json j = v"
      using "2.prems"(1) json_round_trip(1) by auto
    have fresh: "k \<notin> fst ` set acc"
      using "2.prems"(2) by auto
    have "of_json_props (acc @ [(k, v)]) (to_json_props kvs)
        = (acc @ [(k, v)]) @ filter (\<lambda>kv. snd kv \<noteq> Undefined) kvs"
      using "2.prems" by (intro "2.IH") simp_all
    then show ?thesis
      using j fresh False by (simp add: update_fresh)
  qed
qed

lemma define_props_distinct:
  "distinct (map fst (acc @ kvs)) \<Longrightarrow> define_props acc kvs = acc @ kvs"
proof (induction kvs arbitrary: acc)
  case Nil
  show ?case by simp
next
  case (Cons p kvs)
  obtain k v where p: "p = (k, v)" by (cases p)
  have "k \<notin> fst ` set acc"
    using Cons.prems by (auto simp: p)
  moreover have "define_props (acc @ [(k, v)]) kvs = (acc @ [(k, v)]) @ kvs"
    using Cons.prems by (intro Cons.IH) (simp add: p)
  ultimately show ?case
    by (simp add: p update_fresh)
qed

lemma json_fields_update:
  "json_fields kvs \<Longrightarrow> json_fields (AList.update k Null kvs)"
  by (induction kvs rule: json_fields.induct) auto

lemma field_filter_defined:
  "distinct (map fst al) \<Longrightarrow>
     field (Obj (filter (\<lambda>kv. snd kv \<noteq> Undefined) al)) k = field (Obj al) k"
proof (induction al)
  case Nil
  show ?case by simp
next
  case (Cons p al)
  have "map_of (filter (\<lambda>kv. snd kv \<noteq> Undefined) al) (fst p) = None"
    using Cons.prems by (auto simp: map_of_eq_None_iff)
  then show ?case
    using Cons by (cases p) (auto split: option.splits)
qed

text \<open>
  What the export followed by the import makes of one entry.
\<close>

lemma entry_round_trip:
  assumes "json_entry c"
  shows "\<exists>j. to_json (Obj (define_props [] (spread_props c @ [(''photoUri'', Null)]))) = Some j
    \<and> field (of_json j) ''photoUri'' = Null
    \<and> (\<forall>k. k \<noteq> ''photoUri'' \<longrightarrow> field (of_json j) k = field c k)"
proof -
  obtain kvs where c: "c = Obj kvs" and d: "distinct (map fst kvs)" and f: "json_fields kvs"
    using assms by (cases c) simp_all
  define al where "al = AList.update ''photoUri'' Null kvs"
  have ex: "define_props [] (spread_props c @ [(''photoUri'', Null)]) = al"
    using d by (simp add: c define_props_append define_props_distinct al_def)
  have dal: "distinct (map fst al)"
    using d by (simp add: al_def AList.distinct_update)
  have "json_fields al"
    using f by (simp add: al_def json_fields_update)
  then have rt: "of_json_props [] (to_json_props al) = filter (\<lambda>kv. snd kv \<noteq> Undefined) al"
    using fields_round_trip [of al "[]"] dal by simp
  have "field (Obj al) k = (if k = ''photoUri'' then Null else field c k)" for k
    by (simp add: al_def c AList.update_conv')
  then have "field (Obj (filter (\<lambda>kv. snd kv \<noteq> Undefined) al)) k
      = (if k = ''photoUri'' then Null else field c k)" for k
    by (simp only: field_filter_defined [OF dal])
  then show ?thesis
    by (simp add: ex rt del: field.simps)
qed

lemma elems_round_trip:
  assumes "list_all json_entry cs"
  shows "list_all2 same_but_photoUri
     (of_json_elems (to_json_elems
        (map (\<lambda>card. Obj (define_props [] (spread_props card @ [(''photoUri'', Null)]))) cs)))
     cs"
  using assms
proof (induction cs)
  case Nil
  show ?case by simp
next
  case (Cons c cs)
  obtain j where "to_json (Obj (define_props [] (spread_props c @ [(''photoUri'', Null)]))) = Some j"
    and "same_but_photoUri (of_json j) c"
    using entry_round_trip [of c] Cons.prems unfolding same_but_photoUri_def by auto
  then show ?case
    using Cons by (simp del: to_json.simps)
qed

lemma exportVault_parses:
  "JSON_parse (exportVault e s) = Inr (Obj
     [(''exportedAt'', Str (now_iso e)),
      (''version'', Str ''1.0''),
      (''totalCards'', Number (Fin (of_nat (length (cards s))))),
      (''cards'', Arr (of_json_elems (to_json_elems
         (map (\<lambda>card. Obj (define_props [] (spread_props card @ [(''photoUri'', Null)])))
            (cards s)))))])"
  by (simp add: exportVault_def JSON_stringify_def JSON_parse_def)

lemma define_props_keys_distinct:
  "distinct (map fst acc) \<Longrightarrow> distinct (map fst (define_props acc xs))"
proof (induction xs arbitrary: acc)
  case Nil
  then show ?case by simp
next
  case (Cons p xs)
  obtain k v where p: "p = (k, v)" by (cases p)
  have "distinct (map fst (AList.update k v acc))"
    using Cons.prems by (simp add: AList.distinct_update)
  then show ?case
    unfolding p by (simp add: Cons.IH)
qed

lemma to_json_props_keys:
  "map fst (to_json_props al) = map fst (filter (\<lambda>kv. to_json (snd kv) \<noteq> None) al)"
proof (induction al)
  case Nil
  show ?case by simp
next
  case (Cons p al)
  then show ?case
    by (cases p) (auto split: option.splits)
qed

lemma to_json_props_keeps_null:
  "(p, Null) \<in> set al \<Longrightarrow> (p, JNull) \<in> set (to_json_props al)"
proof (induction al)
  case Nil
  then show ?case by simp
next
  case (Cons q al)
  then show ?case
    by (cases q) (auto split: option.splits)
qed

lemma of_json_props_distinct:
  "distinct (map fst acc @ map fst kjs) \<Longrightarrow>
     of_json_props acc kjs = acc @ map (\<lambda>kj. (fst kj, of_json (snd kj))) kjs"
proof (induction kjs arbitrary: acc)
  case Nil
  show ?case by simp
next
  case (Cons p kjs)
  obtain k j where p: "p = (k, j)" by (cases p)
  have fresh: "k \<notin> fst ` set acc"
    using Cons.prems by (auto simp: p)
  have "of_json_props (acc @ [(k, of_json j)]) kjs
      = (acc @ [(k, of_json j)]) @ map (\<lambda>kj. (fst kj, of_json (snd kj))) kjs"
    using Cons.prems by (intro Cons.IH) (simp add: p)
  then show ?case
    using fresh by (simp add: p update_fresh)
qed

text \<open>Every exported card comes back with \<^verbatim>\<open>photoUri\<close> \<^verbatim>\<open>null\<close>, whatever the card was.\<close>

lemma exported_card_photoUri:
  "\<exists>j. to_json (Obj (define_props [] (spread_props c @ [(''photoUri'', Null)]))) = Some j
     \<and> field (of_json j) ''photoUri'' = Null"
proof -
  define al where "al = define_props [] (spread_props c @ [(''photoUri'', Null)])"
  have d: "distinct (map fst al)"
    unfolding al_def by (rule define_props_keys_distinct) simp
  have "map_of al ''photoUri'' = Some Null"
    by (simp add: al_def define_props_append AList.update_conv')
  then have "(''photoUri'', Null) \<in> set al"
    by (rule map_of_SomeD)
  then have m: "(''photoUri'', JNull) \<in> set (to_json_props al)"
    by (rule to_json_props_keeps_null)
  have dj: "distinct (map fst (to_json_props al))"
    unfolding to_json_props_keys using d by (rule distinct_map_filter)
  then have o: "of_json_props [] (to_json_props al)
      = map (\<lambda>kj. (fst kj, of_json (snd kj))) (to_json_props al)"
    using of_json_props_distinct [of "[]" "to_json_props al"] by simp
  have "distinct (map fst (map (\<lambda>kj. (fst kj, of_json (snd kj))) (to_json_props al)))"
    using dj by (simp add: comp_def)
  moreover have "(''photoUri'', Null) \<in> set (map (\<lambda>kj. (fst kj, of_json (snd kj))) (to_json_props al))"
    using m by force
  ultimately have "map_of (of_json_props [] (to_json_props al)) ''photoUri'' = Some Null"
    unfolding o by (rule map_of_is_SomeI)
  then show ?thesis
    unfolding al_def [symmetric] by simp
qed

lemma exported_cards_photoUri:
  "list_all (\<lambda>c. field c ''photoUri'' = Null)
     (of_json_elems (to_json_elems
        (map (\<lambda>card. Obj (define_props [] (spread_props card @ [(''photoUri'', Null)]))) cs)))
   \<and> length (of_json_elems (to_json_elems
        (map (\<lambda>card. Obj (define_props [] (spread_props card @ [(''photoUri'', Null)]))) cs)))
     = length cs"
proof (induction cs)
  case Nil
  show ?case by simp
next
  case (Cons c cs)
  obtain j where "to_json (Obj (define_props [] (spread_props c @ [(''photoUri'', Null)]))) = Some j"
    and "field (of_json j) ''photoUri'' = Null"
    using exported_card_photoUri [of c] by blast
  then show ?case
    using Cons by (simp del: to_json.simps)
qed

lemma importVault_replace_result:
  assumes "storage_ok e" and "JSON_parse jsonData = Inr importData"
    and "field importData ''cards'' = Arr xs"
  shows "importVault e jsonData False s =
           (Inr \<lparr>imported = length xs, total = length xs\<rparr>,
            s\<lparr>cards := xs, storage := Some (JSON_stringify (Arr xs))\<rparr>)"
proof -
  have "\<not> nullish importData"
    using assms(3) by (cases importData) simp_all
  then have g: "get_prop importData ''cards'' = Inr (Arr xs)"
    using assms(3) by (simp add: get_prop_def)
  show ?thesis
    using assms(1,2) g by (simp add: importVault_def saveCards_ok)
qed

text \<open>
  Claim C4, as amended. For every entry list the exported package parses, and every
  card in it has \<^verbatim>\<open>photoUri\<close> \<^verbatim>\<open>null\<close>. When the entries are objects with fields that are
  \<^verbatim>\<open>undefined\<close> or JSON data, importing the package without merge (the write to storage
  succeeding) makes the entry list the cards of the package: as many as before, each equal
  to the entry it came from in every field but \<^verbatim>\<open>photoUri\<close>, which is \<^verbatim>\<open>null\<close>.
\<close>

theorem export_import_round_trip:
  "\<exists>pkg cs.
      JSON_parse (exportVault e s) = Inr pkg \<and> field pkg ''cards'' = Arr cs
    \<and> length cs = length (cards s)
    \<and> list_all (\<lambda>c. field c ''photoUri'' = Null) cs
    \<and> (storage_ok e' \<and> list_all json_entry (cards s) \<longrightarrow>
          importVault e' (exportVault e s) False s =
            (Inr \<lparr>imported = length (cards s), total = length (cards s)\<rparr>,
             s\<lparr>cards := cs, storage := Some (JSON_stringify (Arr cs))\<rparr>)
        \<and> (\<forall>i < length (cards s). \<forall>k. k \<noteq> ''photoUri'' \<longrightarrow>
               field (cs ! i) k = field (cards s ! i) k))"
proof -
  define cs where "cs = of_json_elems (to_json_elems
         (map (\<lambda>card. Obj (define_props [] (spread_props card @ [(''photoUri'', Null)])))
            (cards s)))"
  define pkg where "pkg = Obj
     [(''exportedAt'', Str (now_iso e)),
      (''version'', Str ''1.0''),
      (''totalCards'', Number (Fin (of_nat (length (cards s))))),
      (''cards'', Arr cs)]"
  have p: "JSON_parse (exportVault e s) = Inr pkg"
    by (simp only: exportVault_parses pkg_def cs_def)
  have f: "field pkg ''cards'' = Arr cs"
    by (simp add: pkg_def)
  have nulled: "list_all (\<lambda>c. field c ''photoUri'' = Null) cs"
    and len: "length cs = length (cards s)"
    unfolding cs_def using exported_cards_photoUri [of "cards s"] by simp_all
  have rt: "importVault e' (exportVault e s) False s =
            (Inr \<lparr>imported = length (cards s), total = length (cards s)\<rparr>,
             s\<lparr>cards := cs, storage := Some (JSON_stringify (Arr cs))\<rparr>)
        \<and> (\<forall>i < length (cards s). \<forall>k. k \<noteq> ''photoUri'' \<longrightarrow>
               field (cs ! i) k = field (cards s ! i) k)"
    if ok: "storage_ok e'" and entries: "list_all json_entry (cards s)"
  proof -
    have "list_all2 same_but_photoUri cs (cards s)"
      unfolding cs_def using entries by (rule elems_round_trip)
    then have each: "same_but_photoUri (cs ! i) (cards s ! i)" if "i < length (cards s)" for i
      using that by (simp add: list_all2_conv_all_nth)
    have imp: "importVault e' (exportVault e s) False s =
         (Inr \<lparr>imported = length (cards s), total = length (cards s)\<rparr>,
          s\<lparr>cards := cs, storage := Some (JSON_stringify (Arr cs))\<rparr>)"
      using importVault_replace_result [OF ok p f, of s] len by simp
    show ?thesis
      using imp each unfolding same_but_photoUri_def by blast
  qed
  show ?thesis
    using p f len nulled rt by blast
qed

theorem export_import_round_trip_witness:
  "\<exists>pkg cs.
      JSON_parse (exportVault \<lparr>now_ms = 5, now_iso = ''2024-01-01T00:00:00.000Z'', storage_ok = True\<rparr>
        \<lparr>cards = [Obj [(''id'', Str ''1''), (''name'', Str ''Pikachu''),
                        (''photoUri'', Str ''file:///a.jpg''), (''notes'', Undefined),
                        (''subgrades'', Obj [(''edges'', Number (Fin 9))])]],
           isLoading = False, storage = None\<rparr>) = Inr pkg
    \<and> field pkg ''cards'' = Arr cs
    \<and> fst (importVault \<lparr>now_ms = 6, now_iso = ''2024-01-01T00:00:01.000Z'', storage_ok = True\<rparr>
        (exportVault \<lparr>now_ms = 5, now_iso = ''2024-01-01T00:00:00.000Z'', storage_ok = True\<rparr>
        \<lparr>cards = [Obj [(''id'', Str ''1''), (''name'', Str ''Pikachu''),
                        (''photoUri'', Str ''file:///a.jpg''), (''notes'', Undefined),
                        (''subgrades'', Obj [(''edges'', Number (Fin 9))])]],
           isLoading = False, storage = None\<rparr>) False
        \<lparr>cards = [Obj [(''id'', Str ''1''), (''name'', Str ''Pikachu''),
                        (''photoUri'', Str ''file:///a.jpg''), (''notes'', Undefined),
                        (''subgrades'', Obj [(''edges'', Number (Fin 9))])]],
           isLoading = False, storage = None\<rparr>) = Inr \<lparr>imported = 1, total = 1\<rparr>
    \<and> length cs = 1
    \<and> field (cs ! 0) ''photoUri'' = Null
    \<and> field (cs ! 0) ''name'' = Str ''Pikachu''
    \<and> field (cs ! 0) ''notes'' = Undefined
    \<and> field (cs ! 0) ''subgrades'' = Obj [(''edges'', Number (Fin 9))]"
proof -
  let ?e = "\<lparr>now_ms = 5, now_iso = ''2024-01-01T00:00:00.000Z'', storage_ok = True\<rparr>"
  let ?e' = "\<lparr>now_ms = 6, now_iso = ''2024-01-01T00:00:01.000Z'', storage_ok = True\<rparr>"
  let ?s = "\<lparr>cards = [Obj [(''id'', Str ''1''), (''name'', Str ''Pikachu''),
                        (''photoUri'', Str ''file:///a.jpg''), (''notes'', Undefined),
                        (''subgrades'', Obj [(''edges'', Number (Fin 9))])]],
           isLoading = False, storage = None\<rparr>"
  have ab: "storage_ok ?e' \<and> list_all json_entry (cards ?s)"
    by simp
  obtain pkg cs where r: "JSON_parse (exportVault ?e ?s) = Inr pkg" "field pkg ''cards'' = Arr cs"
      "length cs = length (cards ?s)"
      "list_all (\<lambda>c. field c ''photoUri'' = Null) cs"
      "storage_ok ?e' \<and> list_all json_entry (cards ?s) \<longrightarrow>
          importVault ?e' (exportVault ?e ?s) False ?s =
            (Inr \<lparr>imported = length (cards ?s), total = length (cards ?s)\<rparr>,
             ?s\<lparr>cards := cs, storage := Some (JSON_stringify (Arr cs))\<rparr>)
        \<and> (\<forall>i < length (cards ?s). \<forall>k. k \<noteq> ''photoUri'' \<longrightarrow>
               field (cs ! i) k = field (cards ?s ! i) k)"
    using export_import_round_trip [of ?e ?s ?e'] by blast
  note g = r(5) [THEN mp, OF ab]
  have l: "length cs = 1"
    using r(3) by simp
  have 0: "\<forall>k. k \<noteq> ''photoUri'' \<longrightarrow> field (cs ! 0) k = field (cards ?s ! 0) k"
    using g [THEN conjunct2] by simp
  have u: "field (cs ! 0) ''photoUri'' = Null"
    using r(4) l by (cases cs) simp_all
  have n: "field (cs ! 0) ''name'' = Str ''Pikachu''"
    using 0 [rule_format, of "''name''"] by simp
  have m: "field (cs ! 0) ''notes'' = Undefined"
    using 0 [rule_format, of "''notes''"] by simp
  have sg: "field (cs ! 0) ''subgrades'' = Obj [(''edges'', Number (Fin 9))]"
    using 0 [rule_format, of "''subgrades''"] by simp
  have i: "fst (importVault ?e' (exportVault ?e ?s) False ?s) = Inr \<lparr>imported = 1, total = 1\<rparr>"
    using g [THEN conjunct1] by simp
  show ?thesis
    using r(1,2) i l u n m sg by blast
qed

text \<open>
  The claim as stated, for every entry list, fails: JSON has no \<^verbatim>\<open>NaN\<close>, so an entry
  whose \<^verbatim>\<open>overallGrade\<close> is \<^verbatim>\<open>NaN\<close> comes back with \<^verbatim>\<open>overallGrade\<close> \<^verbatim>\<open>null\<close>.
\<close>

theorem round_trip_loses_NaN_counterexample:
  "field (hd (cards (snd (importVault
       \<lparr>now_ms = 6, now_iso = ''2024-01-01T00:00:01.000Z'', storage_ok = True\<rparr>
       (exportVault \<lparr>now_ms = 5, now_iso = ''2024-01-01T00:00:00.000Z'', storage_ok = True\<rparr>
          \<lparr>cards = [Obj [(''id'', Str ''1''), (''overallGrade'', Number NaN)]],
             isLoading = False, storage = None\<rparr>)
       False
       \<lparr>cards = [Obj [(''id'', Str ''1''), (''overallGrade'', Number NaN)]],
          isLoading = False, storage = None\<rparr>)))) ''overallGrade'' = Null
   \<and> field (hd (cards \<lparr>cards = [Obj [(''id'', Str ''1''), (''overallGrade'', Number NaN)]],
          isLoading = False, storage = None\<rparr>)) ''overallGrade'' = Number NaN"
  by (simp add: importVault_def exportVault_def JSON_stringify_def JSON_parse_def get_prop_def
      saveCards_def)

section \<open>Collection statistics\<close>

subsection \<open>Rounding to a double\<close>

lemma round_half_even_of_int [simp]: "round_half_even (of_int n) = n"
  by (simp add: round_half_even_def)

lemma round_half_even_ge: "\<lfloor>x\<rfloor> \<le> round_half_even x"
  by (simp add: round_half_even_def Let_def)


lemma scale_down_inv:
  assumes "0 < m" and "scale_down m e = (m', e')"
  shows "0 < m' \<and> e \<le> e' \<and> m' * 2 powi e' = m * 2 powi e \<and> m' < 2 ^ 53"
  using assms
proof (induction m e rule: scale_down.induct)
  case (1 m e)
  show ?case
  proof (cases "2 ^ 53 \<le> m")
    case True
    then have "scale_down (m / 2) (e + 1) = (m', e')"
      using "1.prems"(2) by (simp add: scale_down.simps [of m e])
    then have "0 < m' \<and> e + 1 \<le> e' \<and> m' * 2 powi e' = m / 2 * 2 powi (e + 1)
        \<and> m' < 2 ^ 53"
      using "1.IH" [OF True] "1.prems"(1) by simp
    then show ?thesis
      by (simp add: power_int_add)
  next
    case False
    then have "scale_down m e = (m, e)"
      by (simp only: scale_down.simps [of m e] if_False)
    then have eq: "m' = m" "e' = e"
      using "1.prems"(2) by simp_all
    show ?thesis
      unfolding eq using "1.prems"(1) False by simp
  qed
qed

lemma scale_up_inv:
  assumes "0 < m" and "- 1074 \<le> e" and "m < 2 ^ 53" and "scale_up m e = (m', e')"
  shows "0 < m' \<and> - 1074 \<le> e' \<and> m' * 2 powi e' = m * 2 powi e
           \<and> (2 ^ 52 \<le> m' \<or> e' = - 1074) \<and> m' < 2 ^ 53"
  using assms
proof (induction m e rule: scale_up.induct)
  case (1 m e)
  show ?case
  proof (cases "m < 2 ^ 52 \<and> - 1074 < e")
    case True
    then have "scale_up (m * 2) (e - 1) = (m', e')"
      using "1.prems"(4) by (simp add: scale_up.simps [of m e])
    moreover have "m * 2 < 2 ^ 53"
      using True by simp
    ultimately have "0 < m' \<and> - 1074 \<le> e' \<and> m' * 2 powi e' = m * 2 * 2 powi (e - 1)
           \<and> (2 ^ 52 \<le> m' \<or> e' = - 1074) \<and> m' < 2 ^ 53"
      using "1.IH" [OF True] "1.prems"(1) True by simp
    then show ?thesis
      by (simp add: power_int_diff)
  next
    case False
    then have "scale_up m e = (m, e)"
      by (simp only: scale_up.simps [of m e] if_False)
    then have eq: "m' = m" "e' = e"
      using "1.prems"(4) by simp_all
    have "2 ^ 52 \<le> m \<or> e = - 1074"
      using False "1.prems"(2) by linarith
    then show ?thesis
      unfolding eq using "1.prems"(1,2,3) by simp
  qed
qed

text \<open>What \<open>round_double\<close> computes, for a number other than 0.\<close>

lemma round_double_shape:
  assumes "q \<noteq> 0"
  obtains m e where "0 < m" and "- 1074 \<le> e" and "m * 2 powi e = \<bar>q\<bar>"
    and "2 ^ 52 \<le> m \<or> e = - 1074" and "m < 2 ^ 53"
    and "round_double q =
      (if 2 ^ 1024 \<le> scaled (round_half_even m) e
       then (if q < 0 then NegInf else PosInf)
       else Fin (if q < 0 then - scaled (round_half_even m) e
                 else scaled (round_half_even m) e))"
proof -
  obtain m0 e0 where d: "scale_down \<bar>q\<bar> 0 = (m0, e0)"
    by (cases "scale_down \<bar>q\<bar> 0")
  obtain m e where u: "scale_up m0 e0 = (m, e)"
    by (cases "scale_up m0 e0")
  have q: "0 < \<bar>q\<bar>"
    using assms by simp
  have i0: "0 < m0 \<and> 0 \<le> e0 \<and> m0 * 2 powi e0 = \<bar>q\<bar> * 2 powi 0 \<and> m0 < 2 ^ 53"
    using q d by (rule scale_down_inv)
  then have "0 < m0" and "- 1074 \<le> e0" and "m0 < 2 ^ 53"
    by simp_all
  then have i: "0 < m \<and> - 1074 \<le> e \<and> m * 2 powi e = m0 * 2 powi e0
           \<and> (2 ^ 52 \<le> m \<or> e = - 1074) \<and> m < 2 ^ 53"
    using u by (rule scale_up_inv)
  show thesis
  proof (rule that [of m e])
    show "0 < m" "- 1074 \<le> e" "2 ^ 52 \<le> m \<or> e = - 1074" "m < 2 ^ 53"
      using i by simp_all
    show "m * 2 powi e = \<bar>q\<bar>"
      using i i0 by simp
    show "round_double q =
      (if 2 ^ 1024 \<le> scaled (round_half_even m) e
       then (if q < 0 then NegInf else PosInf)
       else Fin (if q < 0 then - scaled (round_half_even m) e
                 else scaled (round_half_even m) e))"
      using assms by (simp add: round_double_def d u Let_def)
  qed
qed

lemma on_grid_0 [simp]: "on_grid 0"
  unfolding on_grid_def by (rule exI [of _ 0]) simp







lemma double_0 [simp]: "double 0"
  by (simp add: double_def round_double_def)




text \<open>A number of \<open>2\<^sup>1\<^sup>0\<^sup>2\<^sup>4\<close> or more rounds to infinity.\<close>

lemma round_double_overflow:
  assumes "2 ^ 1024 \<le> q"
  shows "round_double q = PosInf"
proof -
  have p: "(0::rat) < 2 ^ 1024"
    by simp
  then have q: "q \<noteq> 0" "\<not> q < 0" "\<bar>q\<bar> = q"
    using assms by linarith+
  from q(1) obtain m e where m: "0 < m" and v: "m * 2 powi e = \<bar>q\<bar>"
    and c: "2 ^ 52 \<le> m \<or> e = - 1074" and u: "m < 2 ^ 53"
    and r: "round_double q =
      (if 2 ^ 1024 \<le> scaled (round_half_even m) e
       then (if q < 0 then NegInf else PosInf)
       else Fin (if q < 0 then - scaled (round_half_even m) e
                 else scaled (round_half_even m) e))"
    by (rule round_double_shape)
  have e: "972 \<le> e"
  proof (rule ccontr)
    assume "\<not> 972 \<le> e"
    then have "e \<le> 971" by simp
    then have "(2::rat) powi e \<le> 2 powi 971"
      by (intro power_int_increasing) simp_all
    then have "m * 2 powi e \<le> m * 2 powi 971"
      using m by simp
    also have "\<dots> < 2 ^ 53 * 2 powi 971"
      using u by simp
    also have "\<dots> = 2 ^ 1024"
      by simp
    finally show False
      using v q(3) assms by simp
  qed
  then have "2 ^ 52 \<le> m"
    using c by auto
  then have "(2 ^ 52 :: int) \<le> \<lfloor>m\<rfloor>"
    by (simp add: le_floor_iff)
  then have "(2 ^ 52 :: int) \<le> round_half_even m"
    using round_half_even_ge [of m] by linarith
  then have n: "(2 ^ 52 :: rat) \<le> of_int (round_half_even m)"
    by (metis of_int_le_iff of_int_numeral of_int_power)
  have "(2::rat) powi 972 \<le> 2 powi e"
    using e by (intro power_int_increasing) simp_all
  then have "(2 ^ 52 :: rat) * 2 powi 972 \<le> of_int (round_half_even m) * 2 powi e"
    using n by (intro mult_mono) simp_all
  moreover have "(2 ^ 52 :: rat) * 2 powi 972 = 2 ^ 1024"
    by simp
  ultimately have "2 ^ 1024 \<le> scaled (round_half_even m) e"
    by (simp add: scaled_def)
  then show ?thesis
    using r q(2) by simp
qed

lemma round_double_0 [simp]: "round_double 0 = Fin 0"
  by (simp add: round_double_def)


lemmas round_defs = round_double_def scale_down.simps scale_up.simps round_half_even_def
  scaled_def Let_def

lemma round_double_examples:
  "round_double 50 = Fin 50"
  "round_double (241 / 2) = Fin (241 / 2)"
  "round_double (341 / 2) = Fin (341 / 2)"
  "round_double (141 / 2) = Fin (141 / 2)"
  "round_double (- (141 / 2)) = Fin (- (141 / 2))"
  "round_double 1234 = Fin 1234"
  "round_double 1234567 = Fin 1234567"
  by (simp_all add: round_defs)


subsection \<open>The total and the order of \<open>topCards\<close>\<close>



lemma or_zero_not_NaN [simp]: "or_zero v \<noteq> NaN"
  by (simp add: or_zero_def)





















subsection \<open>The histograms\<close>





subsection \<open>When the statistics return\<close>











subsection \<open>The price as the claim reads it\<close>






subsection \<open>The example of the claim\<close>

lemmas parse_defs = parseFloat_def is_space_def is_digit_def digits_value_def exponent_def
  replace_by_empty_def Let_def

lemma parsed_value_examples:
  "parsed_value (Obj [(''marketValue'', Str ''$50.00'')]) = Fin 50"
  "parsed_value (Obj [(''marketValue'', Str ''N/A'')]) = NaN"
  "parsed_value (Obj [(''marketValue'', Str ''$120.50'')]) = Fin (241 / 2)"
  "parsed_value (Obj [(''marketValue'', Str ''abc'')]) = NaN"
  by (simp_all add: parsed_value_def parse_defs round_double_examples)






lemma floor_half: "\<lfloor>(1::rat) / 2\<rfloor> = 0"
  by (rule floor_unique) simp_all

lemma average_of_none:
  "js_over (Math_round_num (js_times (Fin 0) 10)) 10 = Fin 0"
  by (simp add: floor_half)


subsection \<open>The arithmetic of doubles, by example\<close>

lemma floor_numeral_divide: "\<lfloor>numeral a / numeral b :: rat\<rfloor> = numeral a div numeral b"
  by (metis floor_divide_of_int_eq of_int_numeral)

text \<open>
  \<^verbatim>\<open>0.1 + 0.2\<close> is \<^verbatim>\<open>0.30000000000000004\<close>, not the double of \<^verbatim>\<open>0.3\<close>, and so is the total of
  \<^verbatim>\<open>$0.10\<close> and \<^verbatim>\<open>$0.20\<close>.
\<close>

lemma total_of_tenths:
  "getTotalValue [Obj [(''marketValue'', Str ''$0.10'')], Obj [(''marketValue'', Str ''$0.20'')]]
     = Inr (Fin (1351079888211149 / 4503599627370496))"
  "parseFloat ''0.30'' = Fin (5404319552844595 / 18014398509481984)"
  by (simp_all add: getTotalValue_def price_of_def or_zero_def parse_defs round_defs
      floor_numeral_divide)

text \<open>
  The average of the grades \<^verbatim>\<open>5.3\<close> and \<^verbatim>\<open>5.6\<close> is \<^verbatim>\<open>5.449999999999999\<close> in doubles, which
  \<open>averageGrade\<close> rounds to \<^verbatim>\<open>5.4\<close>.
\<close>

lemma parseFloat_grades:
  "parseFloat ''5.3'' = Fin (5967269506265907 / 1125899906842624)"
  "parseFloat ''5.6'' = Fin (3152519739159347 / 562949953421312)"
  "parseFloat ''5.4'' = Fin (3039929748475085 / 562949953421312)"
  by (simp_all add: parse_defs round_defs floor_numeral_divide)

lemma average_of_grades:
  "\<exists>st. getCollectionStats integer_toString
      [Obj [(''overallGrade'', Str ''5.3''), (''marketValue'', Str ''N/A'')],
       Obj [(''overallGrade'', Str ''5.6''), (''marketValue'', Str ''N/A'')]] = Inr st
     \<and> averageGrade st = parseFloat ''5.4''"
proof -
  let ?cs = "[Obj [(''overallGrade'', Str ''5.3''), (''marketValue'', Str ''N/A'')],
       Obj [(''overallGrade'', Str ''5.6''), (''marketValue'', Str ''N/A'')]]"
  have vg: "valid_grades integer_toString ?cs = Inr [parseFloat ''5.3'', parseFloat ''5.6'']"
    by (simp add: parseFloat_grades)
  obtain sc where sc: "set_counts integer_toString Map.empty ?cs = Inr sc"
    by simp
  have f: "filter (\<lambda>card. field card ''marketValue'' \<noteq> Str ''N/A'') ?cs = []"
    by simp
  have tv: "getTotalValue ?cs = Inr (Fin 0)"
    by (simp add: getTotalValue_def)
  have avg: "js_over (Math_round_num (js_times (js_over
      (foldl js_add (Fin 0) [parseFloat ''5.3'', parseFloat ''5.6'']) (Suc (Suc 0))) 10)) 10
      = parseFloat ''5.4''"
    by (simp add: parseFloat_grades round_defs floor_numeral_divide)
  show ?thesis
    unfolding getCollectionStats_def vg sc f tv
    using avg by (simp add: Let_def)
qed

text \<open>A literal beyond the largest double parses as \<^verbatim>\<open>Infinity\<close>.\<close>

lemma parseFloat_overflow: "parseFloat ''1e309'' = PosInf"
proof -
  have "(2::rat) ^ 1024 \<le> 10 ^ 309"
    by simp
  then have "round_double (10 ^ 309) = PosInf"
    by (rule round_double_overflow)
  then show ?thesis
    by (simp add: parse_defs)
qed

subsection \<open>What the statistics return\<close>

text \<open>
  \<^verbatim>\<open>replace(',', '')\<close> removes the first comma only: a price with two thousands separators
  is cut at the second.
\<close>

lemma first_comma_only:
  "parsed_value (Obj [(''marketValue'', Str ''$1,234,567.00'')]) = Fin 1234"
  "stripped_value (Obj [(''marketValue'', Str ''$1,234,567.00'')]) = Fin 1234567"
  by (simp_all add: parsed_value_def stripped_value_def parse_defs round_double_examples)








section \<open>The mock grading generator\<close>

lemma baseGrade_range: "baseGrade cardName \<in> {7, 8, 9}"
proof -
  have "seed cardName mod 3 < 3" by simp
  then have "seed cardName mod 3 = 0 \<or> seed cardName mod 3 = 1 \<or> seed cardName mod 3 = 2"
    by linarith
  then show ?thesis
    by (auto simp: baseGrade_def)
qed

lemma variation_range:
  assumes "0 \<le> r" and "r < 1"
  shows "- 0.75 \<le> variation r" and "variation r < 0.75"
  using assms by (simp_all add: variation_def)

lemma round_one_decimal_range:
  assumes "5 \<le> x" and "x \<le> 10"
  shows "5 \<le> Math_round (x * 10) / 10" and "Math_round (x * 10) / 10 \<le> 10"
proof -
  have "(50::int) \<le> \<lfloor>x * 10 + 1 / 2\<rfloor>"
    using assms(1) by (intro le_floor_iff [THEN iffD2]) simp
  then have "(50::real) \<le> of_int \<lfloor>x * 10 + 1 / 2\<rfloor>"
    by linarith
  then show "5 \<le> Math_round (x * 10) / 10"
    by (simp add: Math_round_def)
  have "\<lfloor>x * 10 + 1 / 2\<rfloor> \<le> (100::int)"
    using assms(2) by (intro floor_le_iff [THEN iffD2]) simp
  then have "of_int \<lfloor>x * 10 + 1 / 2\<rfloor> \<le> (100::real)"
    by linarith
  then show "Math_round (x * 10) / 10 \<le> 10"
    by (simp add: Math_round_def)
qed

lemma axis_range:
  "5 \<le> Math_round (min 10 (max 5 y) * 10) / 10"
  "Math_round (min 10 (max 5 y) * 10) / 10 \<le> 10"
  by (rule round_one_decimal_range; simp)+

lemma generateMockGrading_axes:
  "centering (generateMockGrading (Some n) r1 r2 r3 r4)
     = Math_round (min 10 (max 5 (real (baseGrade n) + variation r1)) * 10) / 10"
  "surface (generateMockGrading (Some n) r1 r2 r3 r4)
     = Math_round (min 10 (max 5 (real (baseGrade n) + variation r2)) * 10) / 10"
  "edges (generateMockGrading (Some n) r1 r2 r3 r4)
     = Math_round (min 10 (max 5 (real (baseGrade n) + variation r3)) * 10) / 10"
  "corners (generateMockGrading (Some n) r1 r2 r3 r4)
     = Math_round (min 10 (max 5 (real (baseGrade n) + variation r4)) * 10) / 10"
  by (simp_all add: generateMockGrading_def Let_def)

text \<open>
  Claim C7, as amended. For every card name, \<open>baseGrade\<close> is \<open>7 + (c mod 3)\<close>, where \<open>c\<close> is
  the code of the first code unit of the lower-cased name, or 80 (the code of \<^verbatim>\<open>P\<close>) when
  the name is empty or that code is 0; it is 7, 8 or 9. For draws of \<^verbatim>\<open>Math.random()\<close> in
  \<open>[0, 1)\<close>, each axis is \<open>clamp (baseGrade + jitter) 5 10\<close> rounded to one decimal, for a jitter
  in \<open>[-0.75, 0.75]\<close> of its own, and every axis lies in \<open>[5, 10]\<close>.
\<close>

theorem generateMockGrading_axes_in_range:
  assumes "0 \<le> r1 \<and> r1 < 1" and "0 \<le> r2 \<and> r2 < 1" and "0 \<le> r3 \<and> r3 < 1"
    and "0 \<le> r4 \<and> r4 < 1"
    and "g = generateMockGrading (Some cardName) r1 r2 r3 r4"
  shows "baseGrade cardName = 7 + seed cardName mod 3
    \<and> seed cardName = (case toLowerCase cardName of [] \<Rightarrow> 80
            | c # cs \<Rightarrow> if (of_char c :: nat) = 0 then 80 else of_char c)
    \<and> baseGrade cardName \<in> {7, 8, 9}
    \<and> (\<exists>j1 j2 j3 j4.
           {j1, j2, j3, j4} \<subseteq> {- 0.75 .. 0.75}
         \<and> centering g = Math_round (min 10 (max 5 (real (baseGrade cardName) + j1)) * 10) / 10
         \<and> surface g = Math_round (min 10 (max 5 (real (baseGrade cardName) + j2)) * 10) / 10
         \<and> edges g = Math_round (min 10 (max 5 (real (baseGrade cardName) + j3)) * 10) / 10
         \<and> corners g = Math_round (min 10 (max 5 (real (baseGrade cardName) + j4)) * 10) / 10)
    \<and> {centering g, surface g, edges g, corners g} \<subseteq> {5 .. 10}"
proof -
  have b: "baseGrade cardName = 7 + seed cardName mod 3"
    by (simp add: baseGrade_def)
  have s: "seed cardName = (case toLowerCase cardName of [] \<Rightarrow> 80
            | c # cs \<Rightarrow> if (of_char c :: nat) = 0 then 80 else of_char c)"
    by (simp add: seed_def)
  have j: "variation r1 \<in> {- 0.75 .. 0.75}" "variation r2 \<in> {- 0.75 .. 0.75}"
      "variation r3 \<in> {- 0.75 .. 0.75}" "variation r4 \<in> {- 0.75 .. 0.75}"
    using assms(1-4) variation_range [of r1] variation_range [of r2]
      variation_range [of r3] variation_range [of r4] by simp_all
  have e: "\<exists>j1 j2 j3 j4.
           {j1, j2, j3, j4} \<subseteq> {- 0.75 .. 0.75}
         \<and> centering g = Math_round (min 10 (max 5 (real (baseGrade cardName) + j1)) * 10) / 10
         \<and> surface g = Math_round (min 10 (max 5 (real (baseGrade cardName) + j2)) * 10) / 10
         \<and> edges g = Math_round (min 10 (max 5 (real (baseGrade cardName) + j3)) * 10) / 10
         \<and> corners g = Math_round (min 10 (max 5 (real (baseGrade cardName) + j4)) * 10) / 10"
    unfolding assms(5) generateMockGrading_axes
    using j by (intro exI [of _ "variation r1"] exI [of _ "variation r2"]
        exI [of _ "variation r3"] exI [of _ "variation r4"]) simp
  have r: "{centering g, surface g, edges g, corners g} \<subseteq> {5 .. 10}"
    unfolding assms(5) generateMockGrading_axes
    using axis_range by simp
  show ?thesis
    using b s baseGrade_range e r by (intro conjI)
qed

theorem generateMockGrading_axes_in_range_witness:
  "baseGrade ''Pikachu'' = 8
   \<and> generateMockGrading (Some ''Pikachu'') 0 0.5 0.99 0.25
       = \<lparr>centering = 7.3, surface = 8, edges = 8.7, corners = 7.6\<rparr>
   \<and> {centering (generateMockGrading (Some ''Pikachu'') 0 0.5 0.99 0.25),
       surface (generateMockGrading (Some ''Pikachu'') 0 0.5 0.99 0.25),
       edges (generateMockGrading (Some ''Pikachu'') 0 0.5 0.99 0.25),
       corners (generateMockGrading (Some ''Pikachu'') 0 0.5 0.99 0.25)} \<subseteq> {5 .. 10}"
proof -
  have b: "baseGrade ''Pikachu'' = 8"
    by (simp add: baseGrade_def seed_def toLowerCase_def toLowerCase_char_def)
  have v: "generateMockGrading (Some ''Pikachu'') 0 0.5 0.99 0.25
       = \<lparr>centering = 7.3, surface = 8, edges = 8.7, corners = 7.6\<rparr>"
    by (simp add: generateMockGrading_def Let_def b variation_def Math_round_def)
  have h: "(0::real) \<le> 0 \<and> (0::real) < 1" "(0::real) \<le> 0.5 \<and> (0.5::real) < 1"
      "(0::real) \<le> 0.99 \<and> (0.99::real) < 1" "(0::real) \<le> 0.25 \<and> (0.25::real) < 1"
    by simp_all
  from generateMockGrading_axes_in_range [OF h refl, of "''Pikachu''"]
  have "{centering (generateMockGrading (Some ''Pikachu'') 0 0.5 0.99 0.25),
       surface (generateMockGrading (Some ''Pikachu'') 0 0.5 0.99 0.25),
       edges (generateMockGrading (Some ''Pikachu'') 0 0.5 0.99 0.25),
       corners (generateMockGrading (Some ''Pikachu'') 0 0.5 0.99 0.25)} \<subseteq> {5 .. 10}"
    by (elim conjE)
  with b v show ?thesis by (intro conjI)
qed

text \<open>
  The claim as stated takes the code of the first character of the name itself, and 80
  for the empty name only. The code lower-cases the name first: for \<^verbatim>\<open>Charizard\<close> it
  computes \<open>7 + (99 mod 3) = 7\<close>, where the stated formula gives \<open>7 + (67 mod 3) = 8\<close>. And
  \<^verbatim>\<open>|| 80\<close> replaces the code 0 as well: for a name that starts with the code unit 0 the
  code computes \<open>7 + (80 mod 3) = 9\<close>, where the stated formula gives \<open>7 + (0 mod 3) = 7\<close>.
\<close>

theorem baseGrade_lowercases_counterexample:
  "baseGrade ''Charizard'' = 7 \<and> 7 + (of_char (hd ''Charizard'') :: nat) mod 3 = 8
   \<and> baseGrade [CHR 0x00, CHR ''a''] = 9
   \<and> 7 + (of_char (hd [CHR 0x00, CHR ''a'']) :: nat) mod 3 = 7"
  by (simp add: baseGrade_def seed_def toLowerCase_def toLowerCase_char_def)

section \<open>The radar chart\<close>






end
